theory Spec2Isabelle
  imports Complex_Main "HOL-Library.Sublist"
begin

section \<open>Python values used by train.py\<close>

text \<open>
  Exceptions are values. The first five are raised by the interpreter or by the tensor
  library on the operations that train.py itself writes down (attribute access, indexing,
  \<^verbatim>\<open>view\<close>, unpacking, \<^verbatim>\<open>assert\<close>); \<open>SystemExit\<close> is how argparse
  leaves on a rejected command line; \<open>Framework msg\<close> is any exception raised inside a
  call to the external libraries or to the modules dataloader.py and model.py.
\<close>

datatype error =
    AssertionError
  | AttributeError
  | IndexError
  | RuntimeError
  | ValueError
  | SystemExit
  | Framework string

text \<open>
  A correlation coefficient is a float: either NaN (scipy returns it for a constant or
  too short input) or a number. Comparison with NaN is false, as in Python.
\<close>

datatype pyfloat = NaN | Fin real

fun py_lt :: "pyfloat \<Rightarrow> pyfloat \<Rightarrow> bool" where
  "py_lt (Fin a) (Fin b) = (a < b)"
| "py_lt _ _ = False"

datatype pynum = PyInt int | PyFloat pyfloat

section \<open>Tensors of token ids\<close>

text \<open>
  A contiguous integer tensor: its shape and its elements in row-major order.
\<close>

record tensor =
  shape :: "nat list"
  elems :: "int list"

text \<open>Row-major offset of an index, \<open>None\<close> when the index does not fit the shape.\<close>

fun offset :: "nat \<Rightarrow> nat list \<Rightarrow> nat list \<Rightarrow> nat option" where
  "offset acc [] [] = Some acc"
| "offset acc (d # ds) (i # is) = (if i < d then offset (acc * d + i) ds is else None)"
| "offset acc _ _ = None"

definition elem_at :: "tensor \<Rightarrow> nat list \<Rightarrow> int option" where
  "elem_at t idx =
     (case offset 0 (shape t) idx of
        None \<Rightarrow> None
      | Some k \<Rightarrow> (if k < length (elems t) then Some (elems t ! k) else None))"

text \<open>
  \<^verbatim>\<open>t.view(n, -1)\<close>: the elements stay, the shape becomes \<open>[n, numel / n]\<close>. The
  library infers the \<open>-1\<close> only when \<open>n\<close> is positive and divides the number of
  elements; otherwise it raises RuntimeError.
\<close>

definition view :: "nat \<Rightarrow> tensor \<Rightarrow> error + tensor" where
  "view n t =
     (if 0 < n \<and> length (elems t) mod n = 0
      then Inr \<lparr>shape = [n, length (elems t) div n], elems = elems t\<rparr>
      else Inl RuntimeError)"

text \<open>
  \<^verbatim>\<open>t.squeeze(1)\<close>: drops dimension 1 when its size is 1, leaves the tensor as it is
  when its size is not 1, and raises IndexError when the tensor has fewer than two
  dimensions.
\<close>

definition squeeze1 :: "tensor \<Rightarrow> error + tensor" where
  "squeeze1 t =
     (case shape t of
        d0 # d1 # ds \<Rightarrow> Inr (if d1 = 1 then t\<lparr>shape := d0 # ds\<rparr> else t)
      | _ \<Rightarrow> Inl IndexError)"

section \<open>Batches\<close>

text \<open>
  A tokenizer output is a dictionary from field names to tensors. A batch of the
  unsupervised training set is one such dictionary; a batch of the labelled set is a
  sequence of three values (source, target, labels), as the loop header of
  \<^verbatim>\<open>evaluation\<close> and the note at the head of the loop of \<^verbatim>\<open>train\<close> have it.
\<close>

type_synonym encoding = "(string \<times> tensor) list"

datatype batch =
    DictBatch encoding
  | TripleBatch encoding encoding "int list"

text \<open>
  One pass over a DataLoader: each \<^verbatim>\<open>next\<close> yields a batch or raises. A loader built
  with \<^verbatim>\<open>shuffle=True\<close> draws a new order for every pass, so a loader that is iterated
  more than once is a function from the number of the pass.
\<close>

type_synonym pass = "(string + batch) list"

section \<open>The external operations\<close>

text \<open>
  The encoder, the loss of model.py, the optimizer, the cosine similarity and the rank
  correlation are not part of train.py: they are parameters. \<open>'m\<close> is the state of
  the model together with its optimizer, \<open>'o\<close> an output of the encoder, \<open>'l\<close> a
  loss value. An operation that can raise returns \<open>Inl msg\<close>. Moving a tensor to a
  device keeps its value, so \<open>to_device\<close> only says whether the move raised;
  \<open>empty_tensor\<close> says whether \<^verbatim>\<open>torch.tensor([], device=device)\<close> raised.
  \<open>forward\<close> takes the mode of the model (true after \<^verbatim>\<open>model.train()\<close>, false
  after \<^verbatim>\<open>model.eval()\<close>); \<open>cosine_similarity\<close> is
  \<^verbatim>\<open>F.cosine_similarity(a, b, dim=-1)\<close>, one similarity for each row, and
  \<open>spearmanr\<close> is the \<^verbatim>\<open>correlation\<close> of \<^verbatim>\<open>spearmanr(labels, sims)\<close>.
\<close>

record ('m, 'o, 'l) framework =
  empty_tensor :: "string \<Rightarrow> string option"
  to_device :: "string \<Rightarrow> tensor \<Rightarrow> string option"
  forward :: "'m \<Rightarrow> bool \<Rightarrow> tensor \<Rightarrow> tensor \<Rightarrow> tensor \<Rightarrow> string + 'o"
  simcse_unsup_loss :: "'o \<Rightarrow> string \<Rightarrow> string + 'l"
  zero_grad :: "'m \<Rightarrow> 'm"
  backward :: "'l \<Rightarrow> 'm \<Rightarrow> string + 'm"
  opt_step :: "'m \<Rightarrow> string + 'm"
  cosine_similarity :: "'o \<Rightarrow> 'o \<Rightarrow> string + pyfloat list"
  spearmanr :: "int list \<Rightarrow> pyfloat list \<Rightarrow> string + pyfloat"

section \<open>The state of a run\<close>

text \<open>
  What the run leaves outside the process: the messages given to the logger and the
  checkpoints written to disk (path and model state).
\<close>

datatype ('l, 'a) log_msg =
    ArgsMsg 'a
  | LossMsg 'l
  | HigherMsg pyfloat nat

record ('m, 'l, 'a) world =
  logged :: "('l, 'a) log_msg list"
  saved :: "(string \<times> 'm) list"

text \<open>
  The calls of the loop body of \<^verbatim>\<open>train\<close>, recorded in the order in which they
  return.
\<close>

datatype event =
    EvForward
  | EvLoss
  | EvZeroGrad
  | EvBackward
  | EvStep
  | EvEvaluation pyfloat

record ('m, 'l, 'a) state =
  net :: 'm
  training :: bool
  best :: pyfloat
  trace :: "event list"
  outside :: "('m, 'l, 'a) world"

definition logger_info :: "('l, 'a) log_msg \<Rightarrow> ('m, 'l, 'a) state \<Rightarrow> ('m, 'l, 'a) state" where
  "logger_info msg st = st\<lparr>outside := (outside st)\<lparr>logged := logged (outside st) @ [msg]\<rparr>\<rparr>"

definition record_event :: "event \<Rightarrow> ('m, 'l, 'a) state \<Rightarrow> ('m, 'l, 'a) state" where
  "record_event ev st = st\<lparr>trace := trace st @ [ev]\<rparr>"

section \<open>evaluation\<close>

text \<open>
  \<^verbatim>\<open>x.get(key).squeeze(1).to(device)\<close>: a missing key gives \<^verbatim>\<open>None\<close>, which has no
  \<^verbatim>\<open>squeeze\<close>.
\<close>

definition get_squeezed ::
  "('m, 'o, 'l) framework \<Rightarrow> string \<Rightarrow> encoding \<Rightarrow> string \<Rightarrow> error + tensor" where
  "get_squeezed fw dev enc key =
     (case map_of enc key of
        None \<Rightarrow> Inl AttributeError
      | Some t \<Rightarrow>
          (case squeeze1 t of
             Inl e \<Rightarrow> Inl e
           | Inr t' \<Rightarrow>
               (case to_device fw dev t' of
                  Some msg \<Rightarrow> Inl (Framework msg)
                | None \<Rightarrow> Inr t')))"

text \<open>The encoder in evaluation mode on one side of a batch (lines 60-63 and 65-68).\<close>

definition encode_side ::
  "('m, 'o, 'l) framework \<Rightarrow> 'm \<Rightarrow> string \<Rightarrow> encoding \<Rightarrow> error + 'o" where
  "encode_side fw m dev enc =
     (case get_squeezed fw dev enc ''input_ids'' of
        Inl e \<Rightarrow> Inl e
      | Inr input_ids \<Rightarrow>
     (case get_squeezed fw dev enc ''attention_mask'' of
        Inl e \<Rightarrow> Inl e
      | Inr attention_mask \<Rightarrow>
     (case get_squeezed fw dev enc ''token_type_ids'' of
        Inl e \<Rightarrow> Inl e
      | Inr token_type_ids \<Rightarrow>
     (case forward fw m False input_ids attention_mask token_type_ids of
        Inl msg \<Rightarrow> Inl (Framework msg)
      | Inr pred \<Rightarrow> Inr pred))))"

text \<open>The similarities of one batch (lines 60-70).\<close>

definition batch_sim ::
  "('m, 'o, 'l) framework \<Rightarrow> 'm \<Rightarrow> string \<Rightarrow> encoding \<Rightarrow> encoding \<Rightarrow> error + pyfloat list" where
  "batch_sim fw m dev source target =
     (case encode_side fw m dev source of
        Inl e \<Rightarrow> Inl e
      | Inr source_pred \<Rightarrow>
     (case encode_side fw m dev target of
        Inl e \<Rightarrow> Inl e
      | Inr target_pred \<Rightarrow>
     (case cosine_similarity fw source_pred target_pred of
        Inl msg \<Rightarrow> Inl (Framework msg)
      | Inr sim \<Rightarrow> Inr sim)))"

text \<open>
  The loop of \<^verbatim>\<open>evaluation\<close> with its two accumulators. Unpacking a dictionary
  into three names binds them to its keys when it has three (strings have no
  \<^verbatim>\<open>get\<close>) and raises ValueError otherwise.
\<close>

fun evaluation_loop ::
  "('m, 'o, 'l) framework \<Rightarrow> 'm \<Rightarrow> string \<Rightarrow> pyfloat list \<Rightarrow> int list \<Rightarrow> pass
     \<Rightarrow> error + (pyfloat list \<times> int list)" where
  "evaluation_loop fw m dev sim_tensor label_array [] = Inr (sim_tensor, label_array)"
| "evaluation_loop fw m dev sim_tensor label_array (Inl msg # rest) = Inl (Framework msg)"
| "evaluation_loop fw m dev sim_tensor label_array (Inr (DictBatch d) # rest) =
     (if length d = 3 then Inl AttributeError else Inl ValueError)"
| "evaluation_loop fw m dev sim_tensor label_array (Inr (TripleBatch source target label) # rest) =
     (case batch_sim fw m dev source target of
        Inl e \<Rightarrow> Inl e
      | Inr sim \<Rightarrow> evaluation_loop fw m dev (sim_tensor @ sim) (label_array @ label) rest)"

text \<open>
  \<^verbatim>\<open>evaluation(model, dataloader, device)\<close>: the model is put in evaluation mode
  (line 54), the empty similarity tensor is created on the device (line 55), the loop
  runs, and the correlation is computed once (line 74). The similarities of a batch are
  a one-dimensional tensor, so \<^verbatim>\<open>torch.cat\<close> and \<^verbatim>\<open>np.append\<close> append.
\<close>

definition evaluation ::
  "('m, 'o, 'l) framework \<Rightarrow> ('m, 'l, 'a) state \<Rightarrow> pass \<Rightarrow> string
     \<Rightarrow> ('m, 'l, 'a) state \<times> (error + pyfloat)" where
  "evaluation fw st dataloader dev =
     (let st1 = st\<lparr>training := False\<rparr> in
      (st1,
       case empty_tensor fw dev of
         Some msg \<Rightarrow> Inl (Framework msg)
       | None \<Rightarrow>
      (case evaluation_loop fw (net st1) dev [] [] dataloader of
         Inl e \<Rightarrow> Inl e
       | Inr (sim_tensor, label_array) \<Rightarrow>
           (case spearmanr fw label_array sim_tensor of
              Inl msg \<Rightarrow> Inl (Framework msg)
            | Inr c \<Rightarrow> Inr c))))"

section \<open>train\<close>

text \<open>
  \<^verbatim>\<open>source.get(key).view(real_batch_num * 2, -1).to(device)\<close> (lines 30-32).
\<close>

definition get_viewed ::
  "('m, 'o, 'l) framework \<Rightarrow> string \<Rightarrow> nat \<Rightarrow> encoding \<Rightarrow> string \<Rightarrow> error + tensor" where
  "get_viewed fw dev real_batch_num source key =
     (case map_of source key of
        None \<Rightarrow> Inl AttributeError
      | Some t \<Rightarrow>
          (case view (real_batch_num * 2) t of
             Inl e \<Rightarrow> Inl e
           | Inr t' \<Rightarrow>
               (case to_device fw dev t' of
                  Some msg \<Rightarrow> Inl (Framework msg)
                | None \<Rightarrow> Inr t')))"

text \<open>
  Lines 29-32. A batch that is a sequence has no \<^verbatim>\<open>get\<close>; a missing
  \<^verbatim>\<open>input_ids\<close> gives \<^verbatim>\<open>None\<close>, which has no \<^verbatim>\<open>shape\<close>; a tensor without
  dimensions has no \<^verbatim>\<open>shape[0]\<close>.
\<close>

definition train_inputs ::
  "('m, 'o, 'l) framework \<Rightarrow> string \<Rightarrow> batch \<Rightarrow> error + (tensor \<times> tensor \<times> tensor)" where
  "train_inputs fw dev b =
     (case b of
        TripleBatch s t l \<Rightarrow> Inl AttributeError
      | DictBatch source \<Rightarrow>
     (case map_of source ''input_ids'' of
        None \<Rightarrow> Inl AttributeError
      | Some ids \<Rightarrow>
     (case shape ids of
        [] \<Rightarrow> Inl IndexError
      | real_batch_num # _ \<Rightarrow>
     (case get_viewed fw dev real_batch_num source ''input_ids'' of
        Inl e \<Rightarrow> Inl e
      | Inr input_ids \<Rightarrow>
     (case get_viewed fw dev real_batch_num source ''attention_mask'' of
        Inl e \<Rightarrow> Inl e
      | Inr attention_mask \<Rightarrow>
     (case get_viewed fw dev real_batch_num source ''token_type_ids'' of
        Inl e \<Rightarrow> Inl e
      | Inr token_type_ids \<Rightarrow> Inr (input_ids, attention_mask, token_type_ids)))))))"

text \<open>Lines 34-38: forward pass, loss, and the update of the parameters.\<close>

definition optimise ::
  "('m, 'o, 'l) framework \<Rightarrow> string \<Rightarrow> ('m, 'l, 'a) state \<Rightarrow> tensor \<times> tensor \<times> tensor
     \<Rightarrow> ('m, 'l, 'a) state \<times> (error + 'l)" where
  "optimise fw dev st inp =
     (case inp of (input_ids, attention_mask, token_type_ids) \<Rightarrow>
     (case forward fw (net st) (training st) input_ids attention_mask token_type_ids of
        Inl msg \<Rightarrow> (st, Inl (Framework msg))
      | Inr out \<Rightarrow>
     (let st1 = record_event EvForward st in
     (case simcse_unsup_loss fw out dev of
        Inl msg \<Rightarrow> (st1, Inl (Framework msg))
      | Inr loss \<Rightarrow>
     (let st2 = record_event EvLoss st1;
          st3 = record_event EvZeroGrad (st2\<lparr>net := zero_grad fw (net st2)\<rparr>) in
     (case backward fw loss (net st3) of
        Inl msg \<Rightarrow> (st3, Inl (Framework msg))
      | Inr m4 \<Rightarrow>
     (let st4 = record_event EvBackward (st3\<lparr>net := m4\<rparr>) in
     (case opt_step fw (net st4) of
        Inl msg \<Rightarrow> (st4, Inl (Framework msg))
      | Inr m5 \<Rightarrow> (record_event EvStep (st4\<lparr>net := m5\<rparr>), Inr loss)))))))))"

text \<open>
  Lines 40-47: every \<open>batch_idx\<close> is a multiple of 1. The line that would write the
  checkpoint is a comment in the source, so \<open>save_path\<close> is not used.
\<close>

definition track ::
  "('m, 'o, 'l) framework \<Rightarrow> pass \<Rightarrow> string \<Rightarrow> string \<Rightarrow> nat \<Rightarrow> 'l
     \<Rightarrow> ('m, 'l, 'a) state \<Rightarrow> ('m, 'l, 'a) state \<times> error option" where
  "track fw dev_pass dev save_path batch_idx loss st =
     (if batch_idx mod 1 = 0 then
        (let st1 = logger_info (LossMsg loss) st in
         (case evaluation fw st1 dev_pass dev of
            (st2, Inl e) \<Rightarrow> (st2, Some e)
          | (st2, Inr corrcoef) \<Rightarrow>
              (let st3 = (record_event (EvEvaluation corrcoef) st2)\<lparr>training := True\<rparr> in
               if py_lt (best st3) corrcoef
               then (logger_info (HigherMsg corrcoef batch_idx) (st3\<lparr>best := corrcoef\<rparr>), None)
               else (st3, None))))
      else (st, None))"

definition train_body ::
  "('m, 'o, 'l) framework \<Rightarrow> pass \<Rightarrow> string \<Rightarrow> string \<Rightarrow> nat
     \<Rightarrow> ('m, 'l, 'a) state \<Rightarrow> batch \<Rightarrow> ('m, 'l, 'a) state \<times> error option" where
  "train_body fw dev_pass dev save_path batch_idx st source =
     (case train_inputs fw dev source of
        Inl e \<Rightarrow> (st, Some e)
      | Inr inp \<Rightarrow>
          (case optimise fw dev st inp of
             (st1, Inl e) \<Rightarrow> (st1, Some e)
           | (st1, Inr loss) \<Rightarrow> track fw dev_pass dev save_path batch_idx loss st1))"

text \<open>
  The loop over \<^verbatim>\<open>enumerate(tqdm(train_dl), start=1)\<close>. The evaluation after batch
  \<open>batch_idx\<close> is the pass number \<open>batch_idx - 1\<close> over the evaluation loader.
\<close>

fun train_loop ::
  "('m, 'o, 'l) framework \<Rightarrow> (nat \<Rightarrow> pass) \<Rightarrow> string \<Rightarrow> string \<Rightarrow> nat
     \<Rightarrow> ('m, 'l, 'a) state \<Rightarrow> pass \<Rightarrow> ('m, 'l, 'a) state \<times> error option" where
  "train_loop fw dev_dl dev save_path batch_idx st [] = (st, None)"
| "train_loop fw dev_dl dev save_path batch_idx st (Inl msg # rest) = (st, Some (Framework msg))"
| "train_loop fw dev_dl dev save_path batch_idx st (Inr source # rest) =
     (case train_body fw (dev_dl (batch_idx - 1)) dev save_path batch_idx st source of
        (st', Some e) \<Rightarrow> (st', Some e)
      | (st', None) \<Rightarrow> train_loop fw dev_dl dev save_path (batch_idx + 1) st' rest)"

text \<open>
  \<^verbatim>\<open>train(model, train_dl, dev_dl, optimizer, device, save_path)\<close>: \<open>m\<close> is the model
  with its optimizer, \<open>w\<close> what the run has left outside so far.
\<close>

definition train ::
  "('m, 'o, 'l) framework \<Rightarrow> ('m, 'l, 'a) world \<Rightarrow> 'm \<Rightarrow> pass \<Rightarrow> (nat \<Rightarrow> pass) \<Rightarrow> string \<Rightarrow> string
     \<Rightarrow> ('m, 'l, 'a) state \<times> error option" where
  "train fw w m train_dl dev_dl dev save_path =
     train_loop fw dev_dl dev save_path 1
       \<lparr>net = m, training = True, best = Fin 0, trace = [], outside = w\<rparr> train_dl"

section \<open>main\<close>

text \<open>The namespace that argparse builds (lines 111-125).\<close>

record args =
  device :: string
  save_path :: string
  un_supervise :: bool
  lr :: pyfloat
  dropout :: pyfloat
  batch_size :: pynum
  max_length :: int
  data_path :: string
  pretrain_model_path :: string
  pooler :: string

text \<open>
  What \<^verbatim>\<open>main\<close> calls outside train.py. The readers of the data files and the two
  dataset classes belong to dataloader.py, the model class to model.py; none of them is
  part of train.py, so they are parameters, typed by what train.py does with their
  results: a row of the unsupervised file is indexed with \<^verbatim>\<open>data[0]\<close>; a
  DataLoader over a \<^verbatim>\<open>TrainDataset\<close> yields dictionaries (their \<^verbatim>\<open>get\<close> is called
  in \<^verbatim>\<open>train\<close>), one over a \<^verbatim>\<open>TestDataset\<close> yields triples (they are unpacked in
  \<^verbatim>\<open>evaluation\<close>). \<open>'k\<close> is the tokenizer. \<open>py_float\<close> and \<open>py_int\<close> are the
  conversions \<^verbatim>\<open>float(s)\<close> and \<^verbatim>\<open>int(s)\<close> of a command line value, \<open>None\<close> when
  they raise.
\<close>

type_synonym rows = "(string \<times> string \<times> int) list"

record ('m, 'k) environment =
  cuda_is_available :: bool
  load_sts_data :: "string \<Rightarrow> string + rows"
  load_sts_data_unsup :: "string \<Rightarrow> string + string list list"
  from_pretrained :: "string \<Rightarrow> string + 'k"
  train_batches :: "string list \<Rightarrow> 'k \<Rightarrow> int \<Rightarrow> pynum \<Rightarrow> string + (nat \<Rightarrow> (string + encoding) list)"
  test_batches ::
    "rows \<Rightarrow> 'k \<Rightarrow> int \<Rightarrow> pynum
       \<Rightarrow> string + (nat \<Rightarrow> (string + encoding \<times> encoding \<times> int list) list)"
  SimcseModel :: "string \<Rightarrow> string \<Rightarrow> pyfloat \<Rightarrow> string \<Rightarrow> string + 'm"
  AdamW :: "'m \<Rightarrow> pyfloat \<Rightarrow> string + 'm"
  py_float :: "string \<Rightarrow> pyfloat option"
  py_int :: "string \<Rightarrow> int option"

datatype 'k dataset =
    TrainDataset "string list" 'k int
  | TestDataset rows 'k int

text \<open>
  \<^verbatim>\<open>DataLoader(dataset, batch_size=..., shuffle=True, num_workers=1)\<close>: the batches
  have the form that the class of the dataset gives them.
\<close>

definition DataLoader ::
  "('m, 'k) environment \<Rightarrow> 'k dataset \<Rightarrow> pynum \<Rightarrow> error + (nat \<Rightarrow> pass)" where
  "DataLoader env ds bs =
     (case ds of
        TrainDataset sents tok max_len \<Rightarrow>
          (case train_batches env sents tok max_len bs of
             Inl msg \<Rightarrow> Inl (Framework msg)
           | Inr dl \<Rightarrow> Inr (\<lambda>i. map (map_sum id DictBatch) (dl i)))
      | TestDataset data tok max_len \<Rightarrow>
          (case test_batches env data tok max_len bs of
             Inl msg \<Rightarrow> Inl (Framework msg)
           | Inr dl \<Rightarrow> Inr (\<lambda>i. map (map_sum id (\<lambda>(s, t, l). TripleBatch s t l)) (dl i))))"

text \<open>\<^verbatim>\<open>[data[0] for data in train_data_source]\<close>\<close>

fun first_fields :: "string list list \<Rightarrow> error + string list" where
  "first_fields [] = Inr []"
| "first_fields ([] # rest) = Inl IndexError"
| "first_fields ((x # _) # rest) =
     (case first_fields rest of Inl e \<Rightarrow> Inl e | Inr xs \<Rightarrow> Inr (x # xs))"

text \<open>Lines 88-95: the training set of the mode that the toggle selects.\<close>

definition train_dataset_of ::
  "('m, 'k) environment \<Rightarrow> args \<Rightarrow> 'k \<Rightarrow> error + 'k dataset" where
  "train_dataset_of env a tokenizer =
     (let train_path_sp = data_path a @ ''cnsd-sts-train.txt'';
          train_path_unsp = data_path a @ ''cnsd-sts-train_unsup.txt'' in
      if un_supervise a then
        (case load_sts_data_unsup env train_path_unsp of
           Inl msg \<Rightarrow> Inl (Framework msg)
         | Inr train_data_source \<Rightarrow>
             (case first_fields train_data_source of
                Inl e \<Rightarrow> Inl e
              | Inr train_sents \<Rightarrow> Inr (TrainDataset train_sents tokenizer (max_length a))))
      else
        (case load_sts_data env train_path_sp of
           Inl msg \<Rightarrow> Inl (Framework msg)
         | Inr train_data_source \<Rightarrow> Inr (TestDataset train_data_source tokenizer (max_length a))))"

text \<open>Lines 80-100: everything \<^verbatim>\<open>main\<close> does between the choice of the device and the assertion.\<close>

definition main_setup ::
  "('m, 'k) environment \<Rightarrow> args \<Rightarrow> error + ((nat \<Rightarrow> pass) \<times> (nat \<Rightarrow> pass))" where
  "main_setup env a =
     (let test_path_sp = data_path a @ ''cnsd-sts-test.txt'' in
     (case load_sts_data env test_path_sp of
        Inl msg \<Rightarrow> Inl (Framework msg)
      | Inr test_data_source \<Rightarrow>
     (case from_pretrained env (pretrain_model_path a) of
        Inl msg \<Rightarrow> Inl (Framework msg)
      | Inr tokenizer \<Rightarrow>
     (case train_dataset_of env a tokenizer of
        Inl e \<Rightarrow> Inl e
      | Inr train_dataset \<Rightarrow>
     (case DataLoader env train_dataset (batch_size a) of
        Inl e \<Rightarrow> Inl e
      | Inr train_dataloader \<Rightarrow>
     (case DataLoader env (TestDataset test_data_source tokenizer (max_length a)) (batch_size a) of
        Inl e \<Rightarrow> Inl e
      | Inr test_dataloader \<Rightarrow> Inr (train_dataloader, test_dataloader)))))))"

definition pooler_choices :: "string list" where
  "pooler_choices = [''cls'', ''pooler'', ''last-avg'', ''first-last-avg'']"

text \<open>
  \<^verbatim>\<open>main(args)\<close>. The result is what the run has left outside and the exception
  that ended it, if any.
\<close>

definition main ::
  "('m, 'k) environment \<Rightarrow> ('m, 'o, 'l) framework \<Rightarrow> ('m, 'l, args) world \<Rightarrow> args
     \<Rightarrow> ('m, 'l, args) world \<times> error option" where
  "main env fw w a0 =
     (let a = a0\<lparr>device := (if cuda_is_available env then ''cuda:0'' else ''cpu'')\<rparr> in
     (case main_setup env a of
        Inl e \<Rightarrow> (w, Some e)
      | Inr (train_dataloader, test_dataloader) \<Rightarrow>
     (if pooler a \<notin> set pooler_choices then (w, Some AssertionError)
      else
     (case SimcseModel env (pretrain_model_path a) (pooler a) (dropout a) (device a) of
        Inl msg \<Rightarrow> (w, Some (Framework msg))
      | Inr model \<Rightarrow>
     (case AdamW env model (lr a) of
        Inl msg \<Rightarrow> (w, Some (Framework msg))
      | Inr model_opt \<Rightarrow>
          (case train fw w model_opt (train_dataloader 0) test_dataloader (device a) (save_path a) of
             (st, r) \<Rightarrow> (outside st, r)))))))"

section \<open>The command line\<close>

definition option_names :: "string list" where
  "option_names = [''device'', ''save_path'', ''un_supervise'', ''lr'', ''dropout'',
     ''batch_size'', ''max_length'', ''data_path'', ''pretrain_model_path'', ''pooler'']"

text \<open>
  Whether argparse accepts a value for an option: the conversion by the \<^verbatim>\<open>type\<close> of
  the option must not raise (\<^verbatim>\<open>str\<close> and \<^verbatim>\<open>bool\<close> never do), and a pooler must be
  one of its \<^verbatim>\<open>choices\<close>.
\<close>

definition converts :: "('m, 'k) environment \<Rightarrow> string \<Rightarrow> string \<Rightarrow> bool" where
  "converts env name v =
     (if name = ''lr'' \<or> name = ''dropout'' \<or> name = ''batch_size'' then py_float env v \<noteq> None
      else if name = ''max_length'' then py_int env v \<noteq> None
      else if name = ''pooler'' then v \<in> set pooler_choices
      else True)"

text \<open>
  \<^verbatim>\<open>parser.parse_args()\<close> on the options given on the command line, each with its
  value, in their order, as argparse has recognised them (the matching of abbreviated
  option names is done before). Every occurrence is converted and checked when it is
  read, and a later occurrence of an option replaces an earlier one. A value is converted
  by the \<^verbatim>\<open>type\<close> of its option: \<^verbatim>\<open>str\<close> keeps it, \<^verbatim>\<open>bool(s)\<close> is true for every
  string but the empty one, \<^verbatim>\<open>float\<close> and \<^verbatim>\<open>int\<close> may raise. An option that is not
  given has its default. An unknown option, a failed conversion or a pooler outside its
  \<^verbatim>\<open>choices\<close> ends the program.
\<close>

definition parse_args :: "('m, 'k) environment \<Rightarrow> (string \<times> string) list \<Rightarrow> error + args" where
  "parse_args env cli =
     (let given = map_of (rev cli);
          str = (\<lambda>name default. case given name of None \<Rightarrow> default | Some s \<Rightarrow> s) in
      if \<not> list_all (\<lambda>(name, v). name \<in> set option_names \<and> converts env name v) cli
      then Inl SystemExit
      else
     (case (case given ''lr'' of None \<Rightarrow> Some (Fin (3 / 100000)) | Some s \<Rightarrow> py_float env s) of
        None \<Rightarrow> Inl SystemExit
      | Some lr_v \<Rightarrow>
     (case (case given ''dropout'' of None \<Rightarrow> Some (Fin (15 / 100)) | Some s \<Rightarrow> py_float env s) of
        None \<Rightarrow> Inl SystemExit
      | Some dropout_v \<Rightarrow>
     (case (case given ''batch_size'' of
              None \<Rightarrow> Some (PyInt 4)
            | Some s \<Rightarrow> map_option PyFloat (py_float env s)) of
        None \<Rightarrow> Inl SystemExit
      | Some batch_size_v \<Rightarrow>
     (case (case given ''max_length'' of None \<Rightarrow> Some 16 | Some s \<Rightarrow> py_int env s) of
        None \<Rightarrow> Inl SystemExit
      | Some max_length_v \<Rightarrow>
     (if str ''pooler'' ''first-last-avg'' \<notin> set pooler_choices then Inl SystemExit
      else Inr \<lparr>device = str ''device'' ''cpu'',
                save_path = str ''save_path'' ''./model_save'',
                un_supervise = (case given ''un_supervise'' of None \<Rightarrow> False | Some s \<Rightarrow> s \<noteq> []),
                lr = lr_v,
                dropout = dropout_v,
                batch_size = batch_size_v,
                max_length = max_length_v,
                data_path = str ''data_path'' ''../data/STS-B/'',
                pretrain_model_path = str ''pretrain_model_path'' ''bert-base-chinese'',
                pooler = str ''pooler'' ''first-last-avg''\<rparr>))))))"


section \<open>Notions used to state the properties\<close>

text \<open>
  A reshaped tensor \<open>r\<close> interleaves the two views of \<open>t\<close>: row \<open>2 * b + v\<close> of
  \<open>r\<close> is view \<open>v\<close> of example \<open>b\<close> of \<open>t\<close>.
\<close>

definition interleaves :: "nat \<Rightarrow> nat \<Rightarrow> tensor \<Rightarrow> tensor \<Rightarrow> bool" where
  "interleaves B L t r \<longleftrightarrow>
     shape r = [B * 2, L] \<and>
     (\<forall>b<B. \<forall>v<2. \<forall>s<L.
        elem_at t [b, v, s] \<noteq> None \<and> elem_at r [2 * b + v, s] = elem_at t [b, v, s])"

text \<open>The numbers among the correlation coefficients that a trace has seen.\<close>

fun coefs :: "event list \<Rightarrow> real list" where
  "coefs [] = []"
| "coefs (EvEvaluation (Fin x) # tr) = x # coefs tr"
| "coefs (_ # tr) = coefs tr"

definition running_max :: "event list \<Rightarrow> real" where
  "running_max tr = Max (set (0 # coefs tr))"

definition best_inv :: "('m, 'l, 'a) state \<Rightarrow> bool" where
  "best_inv st \<longleftrightarrow> best st = Fin (running_max (trace st))"

definition track_best :: "pyfloat \<Rightarrow> pyfloat \<Rightarrow> pyfloat" where
  "track_best b c = (if py_lt b c then c else b)"

text \<open>The calls of one complete pass through the loop body, and those before the evaluation.\<close>

definition update_pipeline :: "event list" where
  "update_pipeline = [EvForward, EvLoss, EvZeroGrad, EvBackward, EvStep]"

definition pipeline :: "pyfloat \<Rightarrow> event list" where
  "pipeline c = [EvForward, EvLoss, EvZeroGrad, EvBackward, EvStep, EvEvaluation c]"

text \<open>
  The tensor of one side of a labelled batch, of shape \<open>[batch, 1, seq_len]\<close>, seen as
  \<open>[batch, seq_len]\<close>; and the embedding of one side: the output of the encoder in
  evaluation mode on its three tensors seen so.
\<close>

definition sentence_rows :: "tensor \<Rightarrow> tensor option" where
  "sentence_rows t =
     (case shape t of
        [b, one, l] \<Rightarrow> if one = 1 then Some \<lparr>shape = [b, l], elems = elems t\<rparr> else None
      | _ \<Rightarrow> None)"

definition embedding :: "('m, 'o, 'l) framework \<Rightarrow> 'm \<Rightarrow> encoding \<Rightarrow> 'o option" where
  "embedding fw m enc =
     (case (map_of enc ''input_ids'', map_of enc ''attention_mask'', map_of enc ''token_type_ids'') of
        (Some a, Some b, Some c) \<Rightarrow>
          (case (sentence_rows a, sentence_rows b, sentence_rows c) of
             (Some input_ids, Some attention_mask, Some token_type_ids) \<Rightarrow>
               (case forward fw m False input_ids attention_mask token_type_ids of
                  Inl msg \<Rightarrow> None
                | Inr pred \<Rightarrow> Some pred)
           | _ \<Rightarrow> None)
      | _ \<Rightarrow> None)"

section \<open>A small instance\<close>

text \<open>
  A framework over numbers, to run the definitions: the model is a counter that the
  optimizer increments, the encoder returns it, and the correlation is the first
  similarity.
\<close>

definition example_framework :: "(nat, nat, nat) framework" where
  "example_framework =
     \<lparr>empty_tensor = (\<lambda>d. None),
      to_device = (\<lambda>d t. None),
      forward = (\<lambda>m tr input_ids attention_mask token_type_ids. Inr m),
      simcse_unsup_loss = (\<lambda>out d. Inr out),
      zero_grad = (\<lambda>m. m),
      backward = (\<lambda>loss m. Inr m),
      opt_step = (\<lambda>m. Inr (m + 1)),
      cosine_similarity = (\<lambda>a b. Inr [Fin (real ((a * 2) mod 3))]),
      spearmanr = (\<lambda>labels sims. case sims of [] \<Rightarrow> Inr NaN | c # _ \<Rightarrow> Inr c)\<rparr>"

definition example_views :: encoding where
  "example_views =
     [(''input_ids'', \<lparr>shape = [1, 2, 2], elems = [101, 102, 101, 102]\<rparr>),
      (''attention_mask'', \<lparr>shape = [1, 2, 2], elems = [1, 1, 1, 1]\<rparr>),
      (''token_type_ids'', \<lparr>shape = [1, 2, 2], elems = [0, 0, 0, 0]\<rparr>)]"

definition example_sentence :: encoding where
  "example_sentence =
     [(''input_ids'', \<lparr>shape = [1, 1, 2], elems = [101, 102]\<rparr>),
      (''attention_mask'', \<lparr>shape = [1, 1, 2], elems = [1, 1]\<rparr>),
      (''token_type_ids'', \<lparr>shape = [1, 1, 2], elems = [0, 0]\<rparr>)]"

definition example_batch :: "string + batch" where
  "example_batch = Inr (DictBatch example_views)"

definition example_dev :: "nat \<Rightarrow> pass" where
  "example_dev i =
     [Inr (TripleBatch example_sentence example_sentence [3]),
      Inr (TripleBatch example_sentence example_sentence [1])]"

definition example_world :: "(nat, nat, args) world" where
  "example_world = \<lparr>logged = [], saved = []\<rparr>"

definition state_after_one :: "(nat, nat, args) state" where
  "state_after_one =
     \<lparr>net = 1, training = True, best = Fin 2, trace = pipeline (Fin 2),
      outside = \<lparr>logged = [LossMsg 0, HigherMsg (Fin 2) 1], saved = []\<rparr>\<rparr>"

definition state_after_two :: "(nat, nat, args) state" where
  "state_after_two =
     \<lparr>net = 2, training = True, best = Fin 2, trace = pipeline (Fin 2) @ pipeline (Fin 1),
      outside = \<lparr>logged = [LossMsg 0, HigherMsg (Fin 2) 1, LossMsg 1], saved = []\<rparr>\<rparr>"

definition example_state :: "(nat, nat, args) state" where
  "example_state = \<lparr>net = 0, training = True, best = Fin 0, trace = [], outside = example_world\<rparr>"

text \<open>
  An environment in which the three data files exist and hold two rows each.
\<close>

definition example_environment :: "(nat, unit) environment" where
  "example_environment =
     \<lparr>cuda_is_available = False,
      load_sts_data = (\<lambda>path.
         if path = ''../data/STS-B/cnsd-sts-train.txt'' \<or> path = ''../data/STS-B/cnsd-sts-test.txt''
         then Inr [(''a'', ''b'', 3), (''c'', ''d'', 1)]
         else Inl ''No such file or directory''),
      load_sts_data_unsup = (\<lambda>path.
         if path = ''../data/STS-B/cnsd-sts-train_unsup.txt''
         then Inr [[''a''], [''c'']]
         else Inl ''No such file or directory''),
      from_pretrained = (\<lambda>name. Inr ()),
      train_batches = (\<lambda>sents tok max_len bs. Inr (\<lambda>i. map (\<lambda>s. Inr example_views) sents)),
      test_batches = (\<lambda>data tok max_len bs.
         Inr (\<lambda>i. map (\<lambda>(a, b, label). Inr (example_sentence, example_sentence, [label])) data)),
      SimcseModel = (\<lambda>path pooling drop dev. Inr 0),
      AdamW = (\<lambda>m rate. Inr m),
      py_float = (\<lambda>s. if s = ''8'' then Some (Fin 8) else None),
      py_int = (\<lambda>s. if s = ''32'' then Some 32 else None)\<rparr>"

definition example_args :: args where
  "example_args =
     \<lparr>device = ''cpu'', save_path = ''./model_save'', un_supervise = False,
      lr = Fin (3 / 100000), dropout = Fin (15 / 100), batch_size = PyInt 4, max_length = 16,
      data_path = ''../data/STS-B/'', pretrain_model_path = ''bert-base-chinese'',
      pooler = ''first-last-avg''\<rparr>"

text \<open>
  The same environment without the labelled data files.
\<close>

definition missing_files :: "(nat, unit) environment" where
  "missing_files = example_environment\<lparr>load_sts_data := (\<lambda>path. Inl ''No such file or directory'')\<rparr>"

text \<open>
  A second framework, whose encoder in evaluation mode returns the token ids, whose
  similarity is 1 for equal outputs and 0 otherwise, and whose correlation is the sum of
  the products of labels and similarities.
\<close>

definition example_correlation :: "(nat, int list, nat) framework" where
  "example_correlation =
     \<lparr>empty_tensor = (\<lambda>d. None),
      to_device = (\<lambda>d t. None),
      forward = (\<lambda>m tr input_ids attention_mask token_type_ids.
         Inr (if tr then [] else elems input_ids)),
      simcse_unsup_loss = (\<lambda>out d. Inr 0),
      zero_grad = (\<lambda>m. m),
      backward = (\<lambda>loss m. Inr m),
      opt_step = (\<lambda>m. Inr m),
      cosine_similarity = (\<lambda>a b. Inr [if a = b then Fin 1 else Fin 0]),
      spearmanr = (\<lambda>labels sims.
         if length labels \<noteq> length sims then Inl ''all the input array dimensions must match''
         else Inr (Fin (sum_list (map2 (\<lambda>l s. real_of_int l * (case s of NaN \<Rightarrow> 0 | Fin x \<Rightarrow> x))
                                   labels sims))))\<rparr>"

definition other_sentence :: encoding where
  "other_sentence =
     [(''input_ids'', \<lparr>shape = [1, 1, 2], elems = [101, 105]\<rparr>),
      (''attention_mask'', \<lparr>shape = [1, 1, 2], elems = [1, 1]\<rparr>),
      (''token_type_ids'', \<lparr>shape = [1, 1, 2], elems = [0, 0]\<rparr>)]"

definition example_rows ::
  "(encoding \<times> encoding \<times> int list \<times> int list \<times> int list \<times> pyfloat list) list" where
  "example_rows =
     [(example_sentence, example_sentence, [5], [101, 102], [101, 102], [Fin 1]),
      (example_sentence, other_sentence, [3], [101, 102], [101, 105], [Fin 0])]"

text \<open>
  A third framework, in which the state of the model is the list of the calls that have
  changed it, and an output of the encoder is that list with the call appended.
\<close>

definition recording_framework :: "(string list, string list, string list) framework" where
  "recording_framework =
     \<lparr>empty_tensor = (\<lambda>d. None),
      to_device = (\<lambda>d t. None),
      forward = (\<lambda>m tr input_ids attention_mask token_type_ids.
         Inr (m @ [if tr then ''forward (train)'' else ''forward (eval)''])),
      simcse_unsup_loss = (\<lambda>out d. Inr (out @ [''loss''])),
      zero_grad = (\<lambda>m. m @ [''zero_grad'']),
      backward = (\<lambda>loss m. Inr (m @ [''backward''])),
      opt_step = (\<lambda>m. Inr (m @ [''step''])),
      cosine_similarity = (\<lambda>a b. Inr [Fin (real (length a))]),
      spearmanr = (\<lambda>labels sims. case sims of [] \<Rightarrow> Inr NaN | c # _ \<Rightarrow> Inr c)\<rparr>"

definition recording_start :: "(string list, string list, args) state" where
  "recording_start =
     \<lparr>net = [], training = True, best = Fin 0, trace = [],
      outside = \<lparr>logged = [], saved = []\<rparr>\<rparr>"

definition recorded_state :: "(string list, string list, args) state" where
  "recorded_state =
     \<lparr>net = [''zero_grad'', ''backward'', ''step''], training = True, best = Fin 4,
      trace = pipeline (Fin 4),
      outside = \<lparr>logged = [LossMsg [''forward (train)'', ''loss''], HigherMsg (Fin 4) 1],
                 saved = []\<rparr>\<rparr>"

















section \<open>The reshaping of a training batch\<close>

lemma view_pairs:
  assumes "length (elems t) = B * 2 * L" "0 < B"
  shows "view (B * 2) t = Inr \<lparr>shape = [B * 2, L], elems = elems t\<rparr>"
  using assms by (simp add: view_def)

lemma flat_bound:
  fixes r :: nat
  assumes "r < n" "s < L"
  shows "r * L + s < n * L"
proof -
  have "r * L + s < r * L + L" using assms by simp
  also have "\<dots> = (r + 1) * L" by simp
  also have "\<dots> \<le> n * L" using assms by (intro mult_le_mono1) simp
  finally show ?thesis .
qed

lemma elem_at_3:
  assumes "shape t = [B, 2, L]" "length (elems t) = B * 2 * L" "b < B" "v < 2" "s < L"
  shows "elem_at t [b, v, s] = Some (elems t ! ((b * 2 + v) * L + s))"
proof -
  have "b * 2 + v < B * 2" using assms by simp
  then have "(b * 2 + v) * L + s < B * 2 * L" using assms(5) by (rule flat_bound)
  then show ?thesis using assms by (simp add: elem_at_def)
qed

lemma elem_at_2:
  assumes "shape r = [n, L]" "length (elems r) = n * L" "i < n" "s < L"
  shows "elem_at r [i, s] = Some (elems r ! (i * L + s))"
proof -
  have "i * L + s < n * L" using assms(3,4) by (rule flat_bound)
  then show ?thesis using assms by (simp add: elem_at_def)
qed

lemma view_interleaves:
  assumes "shape t = [B, 2, L]" "length (elems t) = B * 2 * L" "0 < B"
  shows "\<exists>r. view (B * 2) t = Inr r \<and> interleaves B L t r"
proof -
  let ?r = "\<lparr>shape = [B * 2, L], elems = elems t\<rparr>"
  have v: "view (B * 2) t = Inr ?r" using assms(2,3) by (rule view_pairs)
  have "interleaves B L t ?r"
    unfolding interleaves_def
  proof (intro conjI allI impI)
    show "shape ?r = [B * 2, L]" by simp
  next
    fix b v s :: nat assume h: "b < B" "v < 2" "s < L"
    show "elem_at t [b, v, s] \<noteq> None"
      using elem_at_3 [OF assms(1,2) h] by simp
  next
    fix b v s :: nat assume h: "b < B" "v < 2" "s < L"
    have i: "2 * b + v < B * 2" using h by simp
    have "elem_at ?r [2 * b + v, s] = Some (elems ?r ! ((2 * b + v) * L + s))"
      by (rule elem_at_2 [OF _ _ i h(3)]) (simp_all add: assms(2))
    then show "elem_at ?r [2 * b + v, s] = elem_at t [b, v, s]"
      using elem_at_3 [OF assms(1,2) h] by (simp add: mult.commute)
  qed
  with v show ?thesis by blast
qed

lemma get_viewed_interleaves:
  assumes "map_of source key = Some t"
    and "shape t = [B, 2, L]" "length (elems t) = B * 2 * L" "0 < B"
    and "to_device fw dev = (\<lambda>t. None)"
  shows "\<exists>r. get_viewed fw dev B source key = Inr r \<and> interleaves B L t r"
proof -
  obtain r where "view (B * 2) t = Inr r" "interleaves B L t r"
    using view_interleaves [OF assms(2,3,4)] by blast
  then show ?thesis using assms(1,5) by (simp add: get_viewed_def)
qed

text \<open>
  C6. A training batch whose three tensors have shape \<open>[B, 2, L]\<close> (with \<open>B\<close> at
  least one, as every batch that a DataLoader yields, and the move to the device not
  raising) passes lines 29-32, and each tensor comes out with shape \<open>[B * 2, L]\<close>,
  element \<open>[b, v, s]\<close> of the original being element \<open>[2 * b + v, s]\<close> of the result:
  the two views of an example are adjacent rows.
\<close>

theorem train_inputs_interleave:
  assumes "map_of source ''input_ids'' = Some t1"
    and "map_of source ''attention_mask'' = Some t2"
    and "map_of source ''token_type_ids'' = Some t3"
    and "\<forall>t \<in> {t1, t2, t3}. shape t = [B, 2, L] \<and> length (elems t) = B * 2 * L"
    and "0 < B"
    and "to_device fw dev = (\<lambda>t. None)"
  shows "\<exists>r1 r2 r3. train_inputs fw dev (DictBatch source) = Inr (r1, r2, r3)
           \<and> interleaves B L t1 r1 \<and> interleaves B L t2 r2 \<and> interleaves B L t3 r3"
proof -
  have s: "shape t1 = [B, 2, L]" "length (elems t1) = B * 2 * L"
          "shape t2 = [B, 2, L]" "length (elems t2) = B * 2 * L"
          "shape t3 = [B, 2, L]" "length (elems t3) = B * 2 * L"
    using assms(4) by simp_all
  obtain r1 where r1: "get_viewed fw dev B source ''input_ids'' = Inr r1" "interleaves B L t1 r1"
    using get_viewed_interleaves [OF assms(1) s(1,2) assms(5,6)] by blast
  obtain r2 where r2: "get_viewed fw dev B source ''attention_mask'' = Inr r2" "interleaves B L t2 r2"
    using get_viewed_interleaves [OF assms(2) s(3,4) assms(5,6)] by blast
  obtain r3 where r3: "get_viewed fw dev B source ''token_type_ids'' = Inr r3" "interleaves B L t3 r3"
    using get_viewed_interleaves [OF assms(3) s(5,6) assms(5,6)] by blast
  have "train_inputs fw dev (DictBatch source) = Inr (r1, r2, r3)"
    using assms(1) s(1) r1(1) r2(1) r3(1) by (simp add: train_inputs_def)
  with r1(2) r2(2) r3(2) show ?thesis by blast
qed

theorem train_inputs_interleave_witness:
  "train_inputs example_framework ''cpu'' (DictBatch example_views)
     = Inr (\<lparr>shape = [2, 2], elems = [101, 102, 101, 102]\<rparr>,
            \<lparr>shape = [2, 2], elems = [1, 1, 1, 1]\<rparr>,
            \<lparr>shape = [2, 2], elems = [0, 0, 0, 0]\<rparr>)
   \<and> interleaves 1 2 \<lparr>shape = [1, 2, 2], elems = [101, 102, 101, 102]\<rparr>
        \<lparr>shape = [2, 2], elems = [101, 102, 101, 102]\<rparr>"
proof -
  let ?t1 = "\<lparr>shape = [1, 2, 2], elems = [101, 102, 101, 102]\<rparr>"
  let ?t2 = "\<lparr>shape = [1, 2, 2], elems = [1, 1, 1, 1]\<rparr>"
  let ?t3 = "\<lparr>shape = [1, 2, 2], elems = [0, 0, 0, 0]\<rparr>"
  have h1: "map_of example_views ''input_ids'' = Some ?t1" by (simp add: example_views_def)
  have h2: "map_of example_views ''attention_mask'' = Some ?t2" by (simp add: example_views_def)
  have h3: "map_of example_views ''token_type_ids'' = Some ?t3" by (simp add: example_views_def)
  have h4: "\<forall>t \<in> {?t1, ?t2, ?t3}. shape t = [1, 2, 2] \<and> length (elems t) = 1 * 2 * 2" by simp
  have h5: "0 < (1::nat)" by simp
  have h6: "to_device example_framework ''cpu'' = (\<lambda>t. None)" by (simp add: example_framework_def)
  have e: "train_inputs example_framework ''cpu'' (DictBatch example_views)
     = Inr (\<lparr>shape = [2, 2], elems = [101, 102, 101, 102]\<rparr>,
            \<lparr>shape = [2, 2], elems = [1, 1, 1, 1]\<rparr>,
            \<lparr>shape = [2, 2], elems = [0, 0, 0, 0]\<rparr>)"
    by (simp add: train_inputs_def get_viewed_def view_def example_views_def example_framework_def)
  from train_inputs_interleave [OF h1 h2 h3 h4 h5 h6] e show ?thesis by simp
qed

section \<open>The training loop\<close>

lemma coefs_append: "coefs (xs @ ys) = coefs xs @ coefs ys"
  by (induction xs rule: coefs.induct) simp_all

lemma running_max_append:
  "running_max (xs @ ys) = max (running_max xs) (running_max ys)"
proof -
  have "set (0 # coefs (xs @ ys)) = set (0 # coefs xs) \<union> set (0 # coefs ys)"
    by (auto simp: coefs_append)
  moreover have "Max (set (0 # coefs xs) \<union> set (0 # coefs ys))
      = max (Max (set (0 # coefs xs))) (Max (set (0 # coefs ys)))"
    by (rule Max_Un) simp_all
  ultimately show ?thesis
    unfolding running_max_def by (simp only:)
qed

lemma optimise_effect:
  assumes "optimise fw dev st inp = (st', r)"
  shows "best st' = best st \<and> outside st' = outside st \<and> training st' = training st
    \<and> (case r of Inr loss \<Rightarrow> trace st' = trace st @ update_pipeline
        | Inl e \<Rightarrow> (\<exists>evs. trace st' = trace st @ evs \<and> strict_prefix evs update_pipeline))"
  using assms
  by (auto simp: optimise_def record_event_def update_pipeline_def Let_def strict_prefix_def
           split: prod.splits sum.splits)

lemma evaluation_state: "fst (evaluation fw st dl dev) = st\<lparr>training := False\<rparr>"
  by (simp add: evaluation_def Let_def)

lemma track_effect:
  assumes "track fw dp dev sp i loss st = (st', r)"
  shows "saved (outside st') = saved (outside st)
    \<and> prefix (logged (outside st)) (logged (outside st'))
    \<and> (case r of
          None \<Rightarrow> (\<exists>c. trace st' = trace st @ [EvEvaluation c]
                     \<and> best st' = (if py_lt (best st) c then c else best st))
        | Some e \<Rightarrow> trace st' = trace st \<and> best st' = best st)"
proof -
  obtain res where ev: "evaluation fw (logger_info (LossMsg loss) st) dp dev
      = ((logger_info (LossMsg loss) st)\<lparr>training := False\<rparr>, res)"
    using evaluation_state [of fw "logger_info (LossMsg loss) st" dp dev]
    by (cases "evaluation fw (logger_info (LossMsg loss) st) dp dev") simp
  show ?thesis
  proof (cases res)
    case (Inl e)
    with assms ev show ?thesis
      by (auto simp: track_def Let_def logger_info_def)
  next
    case (Inr c)
    with assms ev show ?thesis
      by (auto simp: track_def Let_def logger_info_def record_event_def split: if_splits)
  qed
qed

lemma pipeline_split: "pipeline c = update_pipeline @ [EvEvaluation c]"
  by (simp add: pipeline_def update_pipeline_def)

lemma strict_prefix_pipeline:
  "strict_prefix evs (pipeline c) \<longleftrightarrow> prefix evs update_pipeline"
  by (auto simp: pipeline_split strict_prefix_def prefix_snoc)

lemma train_body_effect:
  assumes "train_body fw dp dev sp i st source = (st', r)"
  shows "saved (outside st') = saved (outside st)
    \<and> prefix (logged (outside st)) (logged (outside st'))
    \<and> (case r of
          None \<Rightarrow> (\<exists>c. trace st' = trace st @ pipeline c
                     \<and> best st' = (if py_lt (best st) c then c else best st))
        | Some e \<Rightarrow> best st' = best st
                     \<and> (\<exists>evs. trace st' = trace st @ evs \<and> prefix evs update_pipeline))"
proof (cases "train_inputs fw dev source")
  case (Inl e)
  with assms show ?thesis by (auto simp: train_body_def)
next
  case (Inr inp)
  obtain st1 r1 where o: "optimise fw dev st inp = (st1, r1)"
    by (cases "optimise fw dev st inp")
  note oe = optimise_effect [OF o]
  show ?thesis
  proof (cases r1)
    case (Inl e)
    with assms Inr o oe show ?thesis
      by (auto simp: train_body_def strict_prefix_def)
  next
    case (Inr loss)
    with assms \<open>train_inputs fw dev source = Inr inp\<close> o
    have t: "track fw dp dev sp i loss st1 = (st', r)"
      by (simp add: train_body_def)
    note te = track_effect [OF t]
    from oe Inr have tr1: "trace st1 = trace st @ update_pipeline"
      and b1: "best st1 = best st" and o1: "outside st1 = outside st"
      by simp_all
    show ?thesis
    proof (cases r)
      case None
      with te tr1 b1 o1 show ?thesis by (auto simp: pipeline_split)
    next
      case (Some e)
      with te tr1 b1 o1 show ?thesis by auto
    qed
  qed
qed

lemma train_loop_append:
  "train_loop fw dd dev sp i st (p @ q) =
     (case train_loop fw dd dev sp i st p of
        (st', Some e) \<Rightarrow> (st', Some e)
      | (st', None) \<Rightarrow> train_loop fw dd dev sp (i + length p) st' q)"
proof (induction p arbitrary: i st)
  case Nil
  then show ?case by simp
next
  case (Cons x p)
  show ?case
  proof (cases x)
    case (Inl msg)
    then show ?thesis by simp
  next
    case (Inr source)
    then show ?thesis
      using Cons.IH [of "i + 1"]
      by (auto split: prod.splits option.splits)
  qed
qed

lemma train_loop_frame:
  "train_loop fw dd dev sp i st p = (st', r) \<Longrightarrow>
     saved (outside st') = saved (outside st) \<and> prefix (logged (outside st)) (logged (outside st'))"
proof (induction p arbitrary: i st)
  case Nil
  then show ?case by simp
next
  case (Cons x p)
  show ?case
  proof (cases x)
    case (Inl msg)
    with Cons.prems show ?thesis by simp
  next
    case (Inr source)
    obtain st1 r1 where b: "train_body fw (dd (i - 1)) dev sp i st source = (st1, r1)"
      by (cases "train_body fw (dd (i - 1)) dev sp i st source")
    note be = train_body_effect [OF b]
    show ?thesis
    proof (cases r1)
      case None
      with Cons.prems Inr b have "train_loop fw dd dev sp (i + 1) st1 p = (st', r)" by simp
      from Cons.IH [OF this] be show ?thesis by (auto intro: prefix_order.trans)
    next
      case (Some e)
      with Cons.prems Inr b be show ?thesis by auto
    qed
  qed
qed

lemma train_loop_trace:
  "train_loop fw dd dev sp i st p = (st', r) \<Longrightarrow>
     \<exists>cs evs. trace st' = trace st @ concat (map pipeline cs) @ evs
       \<and> best st' = foldl track_best (best st) cs
       \<and> (case r of None \<Rightarrow> length cs = length p \<and> evs = []
           | Some e \<Rightarrow> length cs < length p \<and> prefix evs update_pipeline)"
proof (induction p arbitrary: i st)
  case Nil
  then show ?case by (auto intro: exI [of _ "[]"])
next
  case (Cons x p)
  show ?case
  proof (cases x)
    case (Inl msg)
    with Cons.prems show ?thesis by (auto intro: exI [of _ "[]"])
  next
    case (Inr source)
    obtain st1 r1 where b: "train_body fw (dd (i - 1)) dev sp i st source = (st1, r1)"
      by (cases "train_body fw (dd (i - 1)) dev sp i st source")
    note be = train_body_effect [OF b]
    show ?thesis
    proof (cases r1)
      case None
      with Cons.prems Inr b have l: "train_loop fw dd dev sp (i + 1) st1 p = (st', r)" by simp
      from be None obtain c where c: "trace st1 = trace st @ pipeline c"
        "best st1 = track_best (best st) c" by (auto simp: track_best_def)
      from Cons.IH [OF l] obtain cs evs where
        h: "trace st' = trace st1 @ concat (map pipeline cs) @ evs"
           "best st' = foldl track_best (best st1) cs"
           "case r of None \<Rightarrow> length cs = length p \<and> evs = []
            | Some e \<Rightarrow> length cs < length p \<and> prefix evs update_pipeline"
        by blast
      have "trace st' = trace st @ concat (map pipeline (c # cs)) @ evs"
        using h(1) c(1) by simp
      moreover have "best st' = foldl track_best (best st) (c # cs)"
        using h(2) c(2) by simp
      moreover have "case r of None \<Rightarrow> length (c # cs) = length (x # p) \<and> evs = []
            | Some e \<Rightarrow> length (c # cs) < length (x # p) \<and> prefix evs update_pipeline"
        using h(3) by (auto split: option.splits)
      ultimately show ?thesis by blast
    next
      case (Some e)
      with Cons.prems Inr b have "st' = st1" "r = Some e" by simp_all
      with be Some obtain evs where "trace st' = trace st @ evs" "prefix evs update_pipeline"
        "best st' = best st"
        by auto
      then have "trace st' = trace st @ concat (map pipeline []) @ evs"
        "best st' = foldl track_best (best st) []" by simp_all
      with \<open>prefix evs update_pipeline\<close> \<open>r = Some e\<close> show ?thesis
        by (intro exI [of _ "[]"] exI [of _ evs]) simp
    qed
  qed
qed

lemma running_max_nonneg: "0 \<le> running_max tr"
  by (simp add: running_max_def)

lemma coefs_no_evaluation: "(\<forall>c. EvEvaluation c \<notin> set evs) \<Longrightarrow> coefs evs = []"
  by (induction evs rule: coefs.induct) auto

lemma coefs_update_prefix:
  assumes "prefix evs update_pipeline"
  shows "coefs evs = []"
proof -
  have "set evs \<subseteq> set update_pipeline" using assms by (rule set_mono_prefix)
  then have "\<forall>c. EvEvaluation c \<notin> set evs" by (auto simp: update_pipeline_def)
  then show ?thesis by (rule coefs_no_evaluation)
qed

lemma running_max_update_prefix:
  assumes "prefix evs update_pipeline"
  shows "running_max (tr @ evs) = running_max tr"
  using coefs_update_prefix [OF assms] by (simp add: running_max_def coefs_append)

lemma running_max_pipeline:
  "running_max (tr @ pipeline c) = (case c of NaN \<Rightarrow> running_max tr | Fin x \<Rightarrow> max (running_max tr) x)"
proof -
  have u: "coefs update_pipeline = []" by (simp add: update_pipeline_def)
  show ?thesis
  proof (cases c)
    case NaN
    then show ?thesis by (simp add: running_max_def coefs_append pipeline_split u)
  next
    case (Fin x)
    have "running_max (tr @ pipeline c) = max (running_max tr) (running_max (pipeline c))"
      by (rule running_max_append)
    also have "running_max (pipeline c) = max 0 x"
      using Fin by (simp add: running_max_def pipeline_split coefs_append u)
    finally show ?thesis using Fin running_max_nonneg [of tr] by (simp add: max_def)
  qed
qed

lemma train_body_best:
  assumes "best_inv st" and "train_body fw dp dev sp i st source = (st', r)"
  shows "best_inv st' \<and> (\<exists>a b. best st = Fin a \<and> best st' = Fin b \<and> a \<le> b)"
proof (cases r)
  case None
  with train_body_effect [OF assms(2)] obtain c where
    c: "trace st' = trace st @ pipeline c" "best st' = (if py_lt (best st) c then c else best st)"
    by auto
  show ?thesis
  proof (cases c)
    case NaN
    with c assms(1) show ?thesis by (simp add: best_inv_def running_max_pipeline)
  next
    case (Fin x)
    with c assms(1) show ?thesis by (auto simp: best_inv_def running_max_pipeline max_def)
  qed
next
  case (Some e)
  with train_body_effect [OF assms(2)] obtain evs where
    "best st' = best st" "trace st' = trace st @ evs" "prefix evs update_pipeline"
    by auto
  with assms(1) show ?thesis by (simp add: best_inv_def running_max_update_prefix)
qed

lemma train_loop_best:
  "best_inv st \<Longrightarrow> train_loop fw dd dev sp i st p = (st', r) \<Longrightarrow>
     best_inv st' \<and> (\<exists>a b. best st = Fin a \<and> best st' = Fin b \<and> a \<le> b)"
proof (induction p arbitrary: i st)
  case Nil
  then show ?case by (auto simp: best_inv_def)
next
  case (Cons x p)
  show ?case
  proof (cases x)
    case (Inl msg)
    with Cons.prems show ?thesis by (auto simp: best_inv_def)
  next
    case (Inr source)
    obtain st1 r1 where b: "train_body fw (dd (i - 1)) dev sp i st source = (st1, r1)"
      by (cases "train_body fw (dd (i - 1)) dev sp i st source")
    note bb = train_body_best [OF Cons.prems(1) b]
    show ?thesis
    proof (cases r1)
      case None
      with Cons.prems Inr b have l: "train_loop fw dd dev sp (i + 1) st1 p = (st', r)" by simp
      from Cons.IH [OF _ l] bb show ?thesis by force
    next
      case (Some e)
      with Cons.prems Inr b bb show ?thesis by auto
    qed
  qed
qed

lemmas example_defs = train_def train_body_def train_inputs_def get_viewed_def view_def optimise_def
  track_def evaluation_def batch_sim_def encode_side_def get_squeezed_def squeeze1_def
  logger_info_def record_event_def example_framework_def example_views_def example_sentence_def
  example_dev_def example_world_def example_batch_def Let_def pipeline_def

lemma example_run_one:
  "train example_framework example_world 0 [example_batch] example_dev ''cpu'' ''./model_save''
     = (state_after_one, None)"
  by (simp add: example_defs state_after_one_def)

lemma example_run_two:
  "train example_framework example_world 0 ([example_batch] @ [example_batch]) example_dev
     ''cpu'' ''./model_save'' = (state_after_two, None)"
  by (simp add: example_defs state_after_two_def)

lemma best_inv_initial:
  "best_inv \<lparr>net = m, training = True, best = Fin 0, trace = [], outside = w\<rparr>"
  by (simp add: best_inv_def running_max_def)

text \<open>
  C2. \<open>best\<close> starts at 0. After any number of batches it is the maximum of 0 and
  the coefficients that the evaluations have returned so far (a NaN never compares
  greater, so it leaves \<open>best\<close> as it is); it does not decrease when more batches
  are processed; and a batch that completes sets it to the coefficient \<open>c\<close> of its
  evaluation exactly when \<open>best < c\<close>.
\<close>

theorem best_is_running_maximum:
  assumes "train fw w m p dev_dl dev sp = (st, r)"
    and "train fw w m (p @ q) dev_dl dev sp = (st', r')"
  shows "best (fst (train fw w m [] dev_dl dev sp)) = Fin 0
    \<and> best st = Fin (running_max (trace st))
    \<and> best st' = Fin (running_max (trace st'))
    \<and> running_max (trace st) \<le> running_max (trace st')
    \<and> (r = None \<and> r' = None \<and> q = [Inr source] \<longrightarrow>
         (\<exists>c. trace st' = trace st @ pipeline c
            \<and> best st' = (if py_lt (best st) c then c else best st)))"
proof -
  let ?s0 = "\<lparr>net = m, training = True, best = Fin 0, trace = [], outside = w\<rparr>"
  have l1: "train_loop fw dev_dl dev sp 1 ?s0 p = (st, r)"
    using assms(1) by (simp add: train_def)
  have l2: "train_loop fw dev_dl dev sp 1 ?s0 (p @ q) = (st', r')"
    using assms(2) by (simp add: train_def)
  have i1: "best_inv st"
    using train_loop_best [OF best_inv_initial l1] by simp
  have i2: "best_inv st'"
    using train_loop_best [OF best_inv_initial l2] by simp
  have start: "best (fst (train fw w m [] dev_dl dev sp)) = Fin 0"
    by (simp add: train_def)
  have mono: "running_max (trace st) \<le> running_max (trace st')"
  proof (cases r)
    case None
    with l1 l2 have "train_loop fw dev_dl dev sp (1 + length p) st q = (st', r')"
      by (simp add: train_loop_append)
    from train_loop_best [OF i1 this] i1 i2 show ?thesis by (auto simp: best_inv_def)
  next
    case (Some e)
    with l1 l2 have "st' = st" by (simp add: train_loop_append)
    then show ?thesis by simp
  qed
  have upd: "\<exists>c. trace st' = trace st @ pipeline c
            \<and> best st' = (if py_lt (best st) c then c else best st)"
    if h: "r = None" "r' = None" "q = [Inr source]"
  proof -
    from l1 l2 h have "train_loop fw dev_dl dev sp (1 + length p) st [Inr source] = (st', None)"
      by (simp add: train_loop_append)
    then have "train_body fw (dev_dl (1 + length p - 1)) dev sp (1 + length p) st source = (st', None)"
      by (auto split: prod.splits option.splits)
    from train_body_effect [OF this] show ?thesis by simp
  qed
  from start i1 i2 mono upd show ?thesis by (simp add: best_inv_def)
qed

theorem best_is_running_maximum_witness:
  "train example_framework example_world 0 [example_batch] example_dev ''cpu'' ''./model_save''
     = (state_after_one, None)
   \<and> train example_framework example_world 0 ([example_batch] @ [example_batch]) example_dev
       ''cpu'' ''./model_save'' = (state_after_two, None)
   \<and> best state_after_one = Fin (running_max (trace state_after_one))
   \<and> best state_after_two = Fin 2
   \<and> running_max (trace state_after_two) = 2
   \<and> trace state_after_two = trace state_after_one @ pipeline (Fin 1)"
proof -
  note h = best_is_running_maximum [OF example_run_one example_run_two, of "DictBatch example_views"]
  have "best state_after_two = Fin 2" by (simp add: state_after_two_def)
  with h example_run_one example_run_two show ?thesis
    by (simp add: state_after_one_def state_after_two_def)
qed

text \<open>
  C3. No run of \<^verbatim>\<open>train\<close> writes a checkpoint, whatever coefficients it observes:
  the checkpoints on disk are those that were there before, and the log is the old log
  with the messages of the run appended.
\<close>

theorem no_checkpoint_written:
  "saved (outside (fst (train fw w m p dev_dl dev sp))) = saved w
   \<and> prefix (logged w) (logged (outside (fst (train fw w m p dev_dl dev sp))))"
proof -
  obtain st r where t: "train fw w m p dev_dl dev sp = (st, r)"
    by (cases "train fw w m p dev_dl dev sp")
  then have "train_loop fw dev_dl dev sp 1
      \<lparr>net = m, training = True, best = Fin 0, trace = [], outside = w\<rparr> p = (st, r)"
    by (simp add: train_def)
  from train_loop_frame [OF this] t show ?thesis by simp
qed

lemma evaluation_net:
  "net st = net st' \<Longrightarrow> snd (evaluation fw st dl dev) = snd (evaluation fw st' dl dev)"
  by (simp add: evaluation_def Let_def cong: option.case_cong)

lemma optimise_calls:
  assumes "optimise fw dev st (ids, msk, tys) = (st1, Inr loss)"
  shows "\<exists>out m4. forward fw (net st) (training st) ids msk tys = Inr out
    \<and> simcse_unsup_loss fw out dev = Inr loss
    \<and> backward fw loss (zero_grad fw (net st)) = Inr m4
    \<and> opt_step fw m4 = Inr (net st1)"
  using assms
  by (auto simp: optimise_def record_event_def Let_def split: sum.splits)

lemma track_calls:
  assumes "track fw dp dev sp i loss st = (st', None)"
  shows "\<exists>c. snd (evaluation fw st dp dev) = Inr c \<and> net st' = net st \<and> training st'
    \<and> best st' = track_best (best st) c \<and> trace st' = trace st @ [EvEvaluation c]"
proof -
  have n: "net (logger_info (LossMsg loss) st) = net st" by (simp add: logger_info_def)
  obtain res where ev: "evaluation fw (logger_info (LossMsg loss) st) dp dev
      = ((logger_info (LossMsg loss) st)\<lparr>training := False\<rparr>, res)"
    using evaluation_state [of fw "logger_info (LossMsg loss) st" dp dev]
    by (cases "evaluation fw (logger_info (LossMsg loss) st) dp dev") simp
  then have r: "snd (evaluation fw st dp dev) = res"
    using evaluation_net [OF n, of fw dp dev] by simp
  show ?thesis
  proof (cases res)
    case (Inl e)
    with assms ev show ?thesis by (simp add: track_def Let_def)
  next
    case (Inr c)
    with assms ev r show ?thesis
      by (auto simp: track_def Let_def logger_info_def record_event_def track_best_def
          split: if_splits)
  qed
qed

lemma train_body_calls:
  assumes "train_body fw dp dev sp i st0 source = (st1, None)"
  shows "\<exists>ids msk tys out loss m4 c.
      train_inputs fw dev source = Inr (ids, msk, tys)
    \<and> forward fw (net st0) (training st0) ids msk tys = Inr out
    \<and> simcse_unsup_loss fw out dev = Inr loss
    \<and> backward fw loss (zero_grad fw (net st0)) = Inr m4
    \<and> opt_step fw m4 = Inr (net st1)
    \<and> snd (evaluation fw st1 dp dev) = Inr c
    \<and> best st1 = track_best (best st0) c
    \<and> trace st1 = trace st0 @ pipeline c
    \<and> training st1"
proof (cases "train_inputs fw dev source")
  case (Inl e)
  with assms show ?thesis by (simp add: train_body_def)
next
  case (Inr inp)
  obtain ids msk tys where inp: "inp = (ids, msk, tys)" by (cases inp)
  obtain s r where o: "optimise fw dev st0 (ids, msk, tys) = (s, r)"
    by (cases "optimise fw dev st0 (ids, msk, tys)")
  show ?thesis
  proof (cases r)
    case (Inl e)
    with assms Inr inp o show ?thesis by (simp add: train_body_def)
  next
    case loss: (Inr loss)
    with assms Inr inp o have t: "track fw dp dev sp i loss s = (st1, None)"
      by (simp add: train_body_def)
    from optimise_calls [OF o [unfolded loss]] obtain out m4 where
      c: "forward fw (net st0) (training st0) ids msk tys = Inr out"
         "simcse_unsup_loss fw out dev = Inr loss"
         "backward fw loss (zero_grad fw (net st0)) = Inr m4"
         "opt_step fw m4 = Inr (net s)"
      by blast
    from optimise_effect [OF o] loss have e: "best s = best st0" "trace s = trace st0 @ update_pipeline"
      by simp_all
    from track_calls [OF t] obtain c where
      k: "snd (evaluation fw s dp dev) = Inr c" "net st1 = net s" "training st1"
         "best st1 = track_best (best s) c" "trace st1 = trace s @ [EvEvaluation c]"
      by blast
    have "snd (evaluation fw st1 dp dev) = Inr c"
      using evaluation_net [OF k(2), of fw dp dev] k(1) by simp
    with Inr inp c k e show ?thesis
      by (auto simp: pipeline_split)
  qed
qed

lemma train_loop_training:
  "training st \<Longrightarrow> train_loop fw dd dev sp i st p = (st', None) \<Longrightarrow> training st'"
proof (induction p arbitrary: i st)
  case Nil
  then show ?case by simp
next
  case (Cons x p)
  show ?case
  proof (cases x)
    case (Inl msg)
    with Cons.prems show ?thesis by simp
  next
    case (Inr source)
    obtain st1 r1 where b: "train_body fw (dd (i - 1)) dev sp i st source = (st1, r1)"
      by (cases "train_body fw (dd (i - 1)) dev sp i st source")
    show ?thesis
    proof (cases r1)
      case None
      with Cons.prems Inr b have l: "train_loop fw dd dev sp (i + 1) st1 p = (st', None)" by simp
      from train_body_calls [OF b [unfolded None]] have "training st1" by blast
      from Cons.IH [OF this l] show ?thesis .
    next
      case (Some e)
      with Cons.prems Inr b show ?thesis by simp
    qed
  qed
qed

lemma train_next_batch:
  assumes "train fw w m p dd dev sp = (st, None)"
    and "train fw w m (p @ [Inr source]) dd dev sp = (st', r')"
  shows "train_body fw (dd (length p)) dev sp (length p + 1) st source = (st', r') \<and> training st"
proof -
  let ?s0 = "\<lparr>net = m, training = True, best = Fin 0, trace = [], outside = w\<rparr>"
  have l1: "train_loop fw dd dev sp 1 ?s0 p = (st, None)"
    using assms(1) by (simp add: train_def)
  have "training st" using train_loop_training [OF _ l1] by simp
  moreover have "train_loop fw dd dev sp (1 + length p) st [Inr source] = (st', r')"
    using assms(2) l1 by (simp add: train_def train_loop_append)
  then have "train_body fw (dd (length p)) dev sp (length p + 1) st source = (st', r')"
    by (auto split: prod.splits option.splits)
  ultimately show ?thesis by simp
qed

text \<open>
  C7. The trace of a run of \<^verbatim>\<open>train\<close> is, batch after batch, forward pass, loss,
  gradient zeroing, backpropagation, optimizer step and evaluation, in this order, with
  \<open>best\<close> updated from the coefficient of each evaluation in turn: one such sequence,
  hence one evaluation, for every batch of a run that ends normally, and for the batches
  before the failing one, followed by a part of the sequence, otherwise. The run on one
  more batch is the run so far followed by the loop body on that batch, which the loop
  enters with the model in training mode. A loop body that completes has made these
  calls on the model: the forward pass on the reshaped batch with the parameters it
  found, the loss of its output, the backpropagation of that loss on the parameters with
  zeroed gradients, the optimizer step on the result, which gives the new parameters,
  then the evaluation of the new parameters, whose coefficient updates \<open>best\<close>; and it
  leaves the model in training mode.
\<close>

theorem pipeline_order:
  "(train fw w m p dev_dl dev sp = (st, r) \<longrightarrow>
      (\<exists>cs evs. trace st = concat (map pipeline cs) @ evs
         \<and> best st = foldl track_best (Fin 0) cs
         \<and> (case r of None \<Rightarrow> length cs = length p \<and> evs = []
             | Some e \<Rightarrow> length cs < length p \<and> prefix evs update_pipeline)))
   \<and> (train fw w m p dev_dl dev sp = (st, None)
        \<and> train fw w m (p @ [Inr source]) dev_dl dev sp = (st', r') \<longrightarrow>
      train_body fw (dev_dl (length p)) dev sp (length p + 1) st source = (st', r')
      \<and> training st)
   \<and> (train_body fw dev_pass dev sp i st0 source = (st1, None) \<longrightarrow>
      (\<exists>input_ids attention_mask token_type_ids out loss m4 c.
          train_inputs fw dev source = Inr (input_ids, attention_mask, token_type_ids)
        \<and> forward fw (net st0) (training st0) input_ids attention_mask token_type_ids = Inr out
        \<and> simcse_unsup_loss fw out dev = Inr loss
        \<and> backward fw loss (zero_grad fw (net st0)) = Inr m4
        \<and> opt_step fw m4 = Inr (net st1)
        \<and> snd (evaluation fw st1 dev_pass dev) = Inr c
        \<and> best st1 = track_best (best st0) c
        \<and> trace st1 = trace st0 @ pipeline c
        \<and> training st1))"
proof (intro conjI impI)
  assume "train fw w m p dev_dl dev sp = (st, r)"
  then have "train_loop fw dev_dl dev sp 1
      \<lparr>net = m, training = True, best = Fin 0, trace = [], outside = w\<rparr> p = (st, r)"
    by (simp add: train_def)
  from train_loop_trace [OF this]
  show "\<exists>cs evs. trace st = concat (map pipeline cs) @ evs
         \<and> best st = foldl track_best (Fin 0) cs
         \<and> (case r of None \<Rightarrow> length cs = length p \<and> evs = []
             | Some e \<Rightarrow> length cs < length p \<and> prefix evs update_pipeline)"
    by simp
next
  assume h: "train fw w m p dev_dl dev sp = (st, None)
        \<and> train fw w m (p @ [Inr source]) dev_dl dev sp = (st', r')"
  from train_next_batch [OF h [THEN conjunct1] h [THEN conjunct2]]
  show "train_body fw (dev_dl (length p)) dev sp (length p + 1) st source = (st', r')"
    and "training st"
    by simp_all
next
  assume "train_body fw dev_pass dev sp i st0 source = (st1, None)"
  from train_body_calls [OF this]
  show "\<exists>input_ids attention_mask token_type_ids out loss m4 c.
          train_inputs fw dev source = Inr (input_ids, attention_mask, token_type_ids)
        \<and> forward fw (net st0) (training st0) input_ids attention_mask token_type_ids = Inr out
        \<and> simcse_unsup_loss fw out dev = Inr loss
        \<and> backward fw loss (zero_grad fw (net st0)) = Inr m4
        \<and> opt_step fw m4 = Inr (net st1)
        \<and> snd (evaluation fw st1 dev_pass dev) = Inr c
        \<and> best st1 = track_best (best st0) c
        \<and> trace st1 = trace st0 @ pipeline c
        \<and> training st1" .
qed

lemma recorded_run:
  "train recording_framework \<lparr>logged = [], saved = []\<rparr> [] ([] @ [Inr (DictBatch example_views)])
     example_dev ''cpu'' ''./model_save'' = (recorded_state, None)"
  by (simp add: train_def train_body_def train_inputs_def get_viewed_def view_def optimise_def
      track_def evaluation_def batch_sim_def encode_side_def get_squeezed_def squeeze1_def
      logger_info_def record_event_def recording_framework_def example_views_def
      example_sentence_def example_dev_def recorded_state_def pipeline_def Let_def)

theorem pipeline_order_witness:
  "train recording_framework \<lparr>logged = [], saved = []\<rparr> [] ([] @ [Inr (DictBatch example_views)])
     example_dev ''cpu'' ''./model_save'' = (recorded_state, None)
   \<and> train_body recording_framework (example_dev 0) ''cpu'' ''./model_save'' 1 recording_start
       (DictBatch example_views) = (recorded_state, None)
   \<and> (\<exists>input_ids attention_mask token_type_ids out loss m4.
         forward recording_framework [] True input_ids attention_mask token_type_ids = Inr out
       \<and> simcse_unsup_loss recording_framework out ''cpu'' = Inr loss
       \<and> backward recording_framework loss (zero_grad recording_framework []) = Inr m4
       \<and> opt_step recording_framework m4 = Inr [''zero_grad'', ''backward'', ''step''])
   \<and> snd (evaluation recording_framework recorded_state (example_dev 0) ''cpu'') = Inr (Fin 4)
   \<and> (\<exists>cs. trace recorded_state = concat (map pipeline cs)
         \<and> best recorded_state = foldl track_best (Fin 0) cs \<and> length cs = 1)"
proof -
  note run = recorded_run
  have start: "train recording_framework \<lparr>logged = [], saved = []\<rparr> [] [] example_dev ''cpu''
      ''./model_save'' = (recording_start, None)"
    by (simp add: train_def recording_start_def)
  have a: "\<exists>cs evs. trace recorded_state = concat (map pipeline cs) @ evs
         \<and> best recorded_state = foldl track_best (Fin 0) cs
         \<and> length cs = length ([] @ [Inr (DictBatch example_views)]) \<and> evs = []"
    using pipeline_order [where fw = recording_framework and w = "\<lparr>logged = [], saved = []\<rparr>"
        and m = "[]" and p = "[] @ [Inr (DictBatch example_views)]" and dev_dl = example_dev
        and dev = "''cpu''" and sp = "''./model_save''" and st = recorded_state and r = None,
        THEN conjunct1] run
    by simp
  have b: "train_body recording_framework (example_dev 0) ''cpu'' ''./model_save'' 1 recording_start
       (DictBatch example_views) = (recorded_state, None)"
    using pipeline_order [where fw = recording_framework and w = "\<lparr>logged = [], saved = []\<rparr>"
        and m = "[]" and p = "[]" and dev_dl = example_dev and dev = "''cpu''"
        and sp = "''./model_save''" and st = recording_start and st' = recorded_state
        and r' = None and source = "DictBatch example_views",
        THEN conjunct2, THEN conjunct1] start run
    by simp
  have c: "\<exists>input_ids attention_mask token_type_ids out loss m4 c.
          train_inputs recording_framework ''cpu'' (DictBatch example_views)
            = Inr (input_ids, attention_mask, token_type_ids)
        \<and> forward recording_framework (net recording_start) (training recording_start)
            input_ids attention_mask token_type_ids = Inr out
        \<and> simcse_unsup_loss recording_framework out ''cpu'' = Inr loss
        \<and> backward recording_framework loss (zero_grad recording_framework (net recording_start))
            = Inr m4
        \<and> opt_step recording_framework m4 = Inr (net recorded_state)
        \<and> snd (evaluation recording_framework recorded_state (example_dev 0) ''cpu'') = Inr c
        \<and> best recorded_state = track_best (best recording_start) c
        \<and> trace recorded_state = trace recording_start @ pipeline c
        \<and> training recorded_state"
    using pipeline_order [where fw = recording_framework and dev_pass = "example_dev 0"
        and dev = "''cpu''" and sp = "''./model_save''" and i = 1 and ?st0.0 = recording_start
        and ?st1.0 = recorded_state and source = "DictBatch example_views",
        THEN conjunct2, THEN conjunct2] b
    by blast
  from c have c1: "\<exists>input_ids attention_mask token_type_ids out loss m4.
         forward recording_framework [] True input_ids attention_mask token_type_ids = Inr out
       \<and> simcse_unsup_loss recording_framework out ''cpu'' = Inr loss
       \<and> backward recording_framework loss (zero_grad recording_framework []) = Inr m4
       \<and> opt_step recording_framework m4 = Inr [''zero_grad'', ''backward'', ''step'']"
    by (simp add: recording_start_def recorded_state_def) blast
  from c have c2: "snd (evaluation recording_framework recorded_state (example_dev 0) ''cpu'')
      = Inr (Fin 4)"
    by (auto simp: recording_start_def recorded_state_def pipeline_def)
  from a have a1: "\<exists>cs. trace recorded_state = concat (map pipeline cs)
         \<and> best recorded_state = foldl track_best (Fin 0) cs \<and> length cs = 1"
    by auto
  from run b c1 c2 a1 show ?thesis by simp
qed

section \<open>The evaluation\<close>


lemma sentence_rows_squeeze1:
  "sentence_rows t = Some r \<Longrightarrow> squeeze1 t = Inr r"
  by (auto simp: sentence_rows_def squeeze1_def split: list.splits if_splits)

lemma embedding_encode_side:
  assumes "embedding fw m enc = Some pred" and "\<forall>t. to_device fw dev t = None"
  shows "encode_side fw m dev enc = Inr pred"
proof -
  from assms(1) obtain a b c ids mask types where
    k: "map_of enc ''input_ids'' = Some a" "map_of enc ''attention_mask'' = Some b"
       "map_of enc ''token_type_ids'' = Some c"
    and r: "sentence_rows a = Some ids" "sentence_rows b = Some mask" "sentence_rows c = Some types"
    and f: "forward fw m False ids mask types = Inr pred"
    by (auto simp: embedding_def split: option.splits sum.splits)
  have "get_squeezed fw dev enc ''input_ids'' = Inr ids"
    "get_squeezed fw dev enc ''attention_mask'' = Inr mask"
    "get_squeezed fw dev enc ''token_type_ids'' = Inr types"
    using k r [THEN sentence_rows_squeeze1] assms(2) by (simp_all add: get_squeezed_def)
  with f show ?thesis by (simp add: encode_side_def)
qed

lemma evaluation_loop_rows:
  assumes "\<forall>t. to_device fw dev t = None"
    and "\<forall>(s, t, l, sp, tp, sim) \<in> set rows.
           embedding fw m s = Some sp \<and> embedding fw m t = Some tp
           \<and> cosine_similarity fw sp tp = Inr sim"
  shows "evaluation_loop fw m dev sim_tensor label_array
           (map (\<lambda>(s, t, l, sp, tp, sim). Inr (TripleBatch s t l)) rows)
         = Inr (sim_tensor @ concat (map (\<lambda>(s, t, l, sp, tp, sim). sim) rows),
                label_array @ concat (map (\<lambda>(s, t, l, sp, tp, sim). l) rows))"
  using assms(2)
proof (induction rows arbitrary: sim_tensor label_array)
  case Nil
  then show ?case by simp
next
  case (Cons row rows)
  obtain s t l sp tp sim where row: "row = (s, t, l, sp, tp, sim)"
    by (cases row) auto
  from Cons.prems row have e: "embedding fw m s = Some sp" "embedding fw m t = Some tp"
    and c: "cosine_similarity fw sp tp = Inr sim"
    by auto
  have "batch_sim fw m dev s t = Inr sim"
    using e [THEN embedding_encode_side, OF assms(1)] c by (simp add: batch_sim_def)
  moreover have "\<forall>(s, t, l, sp, tp, sim) \<in> set rows.
           embedding fw m s = Some sp \<and> embedding fw m t = Some tp
           \<and> cosine_similarity fw sp tp = Inr sim"
    using Cons.prems by simp
  ultimately show ?case
    using Cons.IH [of "sim_tensor @ sim" "label_array @ l"] by (simp add: row)
qed

text \<open>
  C4. When the device is usable and every batch of the pass is a triple whose two sides
  have embeddings, \<^verbatim>\<open>evaluation\<close> returns one rank correlation, computed once,
  between the concatenation of the labels of all batches and the concatenation of the
  similarities of all batches, the similarities of a batch being the cosine similarity
  of the embedding of its source and the embedding of its target; nothing is averaged
  over batches.
\<close>

theorem evaluation_single_spearman:
  assumes "empty_tensor fw dev = None"
    and "\<forall>t. to_device fw dev t = None"
    and "dataloader = map (\<lambda>(s, t, l, sp, tp, sim). Inr (TripleBatch s t l)) rows"
    and "\<forall>(s, t, l, sp, tp, sim) \<in> set rows.
           embedding fw (net st) s = Some sp \<and> embedding fw (net st) t = Some tp
           \<and> cosine_similarity fw sp tp = Inr sim"
  shows "evaluation fw st dataloader dev
         = (st\<lparr>training := False\<rparr>,
            case spearmanr fw (concat (map (\<lambda>(s, t, l, sp, tp, sim). l) rows))
                              (concat (map (\<lambda>(s, t, l, sp, tp, sim). sim) rows)) of
              Inl msg \<Rightarrow> Inl (Framework msg)
            | Inr c \<Rightarrow> Inr c)"
  using evaluation_loop_rows [OF assms(2,4), of "[]" "[]"] assms(1,3)
  by (simp add: evaluation_def)

theorem evaluation_single_spearman_witness:
  "evaluation example_correlation example_state
     [Inr (TripleBatch example_sentence example_sentence [5]),
      Inr (TripleBatch example_sentence other_sentence [3])] ''cpu''
   = (example_state\<lparr>training := False\<rparr>, Inr (Fin 5))"
proof -
  have h1: "empty_tensor example_correlation ''cpu'' = None"
    by (simp add: example_correlation_def)
  have h2: "\<forall>t. to_device example_correlation ''cpu'' t = None"
    by (simp add: example_correlation_def)
  have h3: "[Inr (TripleBatch example_sentence example_sentence [5]),
      Inr (TripleBatch example_sentence other_sentence [3])]
      = map (\<lambda>(s, t, l, sp, tp, sim). Inr (TripleBatch s t l)) example_rows"
    by (simp add: example_rows_def)
  have h4: "\<forall>(s, t, l, sp, tp, sim) \<in> set example_rows.
           embedding example_correlation (net example_state) s = Some sp
           \<and> embedding example_correlation (net example_state) t = Some tp
           \<and> cosine_similarity example_correlation sp tp = Inr sim"
    by (simp add: example_rows_def embedding_def sentence_rows_def example_correlation_def
        example_sentence_def other_sentence_def)
  show ?thesis
    using evaluation_single_spearman [OF h1 h2 h3 h4]
    by (simp add: example_rows_def example_correlation_def)
qed

section \<open>The supervised mode\<close>

lemma parse_args_default: "parse_args env [] = Inr example_args"
  by (simp add: parse_args_def example_args_def pooler_choices_def)

lemma train_rejects_triple_batch:
  "train fw w m (Inr (TripleBatch s t l) # rest) dev_dl dev sp
     = (\<lparr>net = m, training = True, best = Fin 0, trace = [], outside = w\<rparr>, Some AttributeError)"
  by (simp add: train_def train_body_def train_inputs_def)

lemmas main_defs = main_def main_setup_def train_dataset_of_def DataLoader_def
  example_environment_def example_args_def pooler_choices_def

text \<open>
  C1. With the toggle off (its default) the training set is a \<^verbatim>\<open>TestDataset\<close>,
  whose batches are triples, and the first statement of the loop body of \<^verbatim>\<open>train\<close>
  calls \<^verbatim>\<open>get\<close> on the batch: the run ends with AttributeError before any
  training step, while the same run with the toggle on completes.
\<close>

theorem supervised_mode_raises:
  "main example_environment example_framework example_world example_args
     = (example_world, Some AttributeError)
   \<and> snd (main example_environment example_framework example_world
            (example_args\<lparr>un_supervise := True\<rparr>)) = None"
proof -
  have "main example_environment example_framework example_world example_args
     = (example_world, Some AttributeError)"
    by (simp add: main_defs train_rejects_triple_batch)
  moreover have "train example_framework example_world 0
      [Inr (DictBatch example_views), Inr (DictBatch example_views)]
      (\<lambda>i. [Inr (TripleBatch example_sentence example_sentence [3]),
            Inr (TripleBatch example_sentence example_sentence [1])]) ''cpu'' ''./model_save''
     = (state_after_two, None)"
    using example_run_two by (simp add: example_batch_def example_dev_def [abs_def])
  then have "snd (main example_environment example_framework example_world
            (example_args\<lparr>un_supervise := True\<rparr>)) = None"
    by (simp add: main_defs)
  ultimately show ?thesis by simp
qed

section \<open>The assertion on the pooling strategy\<close>

lemma get_viewed_no_assertion: "get_viewed fw dev n source key \<noteq> Inl AssertionError"
  by (auto simp: get_viewed_def view_def split: option.splits sum.splits if_splits)

lemma train_inputs_no_assertion: "train_inputs fw dev b \<noteq> Inl AssertionError"
  using get_viewed_no_assertion [of fw dev]
  by (auto simp: train_inputs_def split: batch.splits option.splits list.splits sum.splits)

lemma optimise_no_assertion: "snd (optimise fw dev st inp) \<noteq> Inl AssertionError"
  by (auto simp: optimise_def Let_def split: prod.splits sum.splits)

lemma get_squeezed_no_assertion: "get_squeezed fw dev enc key \<noteq> Inl AssertionError"
  by (auto simp: get_squeezed_def squeeze1_def split: option.splits sum.splits list.splits)

lemma encode_side_no_assertion: "encode_side fw m dev enc \<noteq> Inl AssertionError"
  using get_squeezed_no_assertion [of fw dev enc]
  by (auto simp: encode_side_def split: sum.splits)

lemma batch_sim_no_assertion: "batch_sim fw m dev s t \<noteq> Inl AssertionError"
  using encode_side_no_assertion [of fw m dev]
  by (auto simp: batch_sim_def split: sum.splits)

lemma evaluation_loop_no_assertion:
  "evaluation_loop fw m dev sa la p \<noteq> Inl AssertionError"
proof (induction fw m dev sa la p rule: evaluation_loop.induct)
  case (4 fw m dev sim_tensor label_array source target label rest)
  then show ?case
    using batch_sim_no_assertion [of fw m dev source target]
    by (auto split: sum.splits)
qed simp_all

lemma evaluation_no_assertion: "snd (evaluation fw st dl dev) \<noteq> Inl AssertionError"
  using evaluation_loop_no_assertion [of fw "net st" dev "[]" "[]" dl]
  by (auto simp: evaluation_def Let_def split: sum.splits prod.splits option.splits)

lemma track_no_assertion: "snd (track fw dp dev sp i loss st) \<noteq> Some AssertionError"
  using evaluation_no_assertion [of fw "logger_info (LossMsg loss) st" dp dev]
  by (auto simp: track_def Let_def split: prod.splits sum.splits if_splits)

lemma train_body_no_assertion: "snd (train_body fw dp dev sp i st source) \<noteq> Some AssertionError"
proof (cases "train_inputs fw dev source")
  case (Inl e)
  then show ?thesis
    using train_inputs_no_assertion [of fw dev source] by (auto simp: train_body_def)
next
  case (Inr inp)
  obtain st1 r1 where o: "optimise fw dev st inp = (st1, r1)"
    by (cases "optimise fw dev st inp")
  show ?thesis
  proof (cases r1)
    case (Inl e)
    with Inr o optimise_no_assertion [of fw dev st inp] show ?thesis
      by (auto simp: train_body_def)
  next
    case (Inr loss)
    with \<open>train_inputs fw dev source = Inr inp\<close> o track_no_assertion [of fw dp dev sp i loss st1]
    show ?thesis by (simp add: train_body_def)
  qed
qed

lemma train_loop_no_assertion: "snd (train_loop fw dd dev sp i st p) \<noteq> Some AssertionError"
proof (induction p arbitrary: i st)
  case Nil
  then show ?case by simp
next
  case (Cons x p)
  show ?case
  proof (cases x)
    case (Inl msg)
    then show ?thesis by simp
  next
    case (Inr source)
    then show ?thesis
      using train_body_no_assertion [of fw "dd (i - 1)" dev sp i st source] Cons.IH
      by (auto split: prod.splits option.splits)
  qed
qed

lemma train_no_assertion: "snd (train fw w m p dd dev sp) \<noteq> Some AssertionError"
  by (simp add: train_def train_loop_no_assertion)

lemma train_dataset_of_device:
  "train_dataset_of env (a\<lparr>device := d\<rparr>) tok = train_dataset_of env a tok"
  by (simp add: train_dataset_of_def cong: sum.case_cong)

lemma main_setup_device: "main_setup env (a\<lparr>device := d\<rparr>) = main_setup env a"
  by (simp add: main_setup_def train_dataset_of_device cong: sum.case_cong)

lemma option_case_Inr:
  assumes "(case x of None \<Rightarrow> Inl e | Some v \<Rightarrow> f v) = Inr a"
  obtains v where "x = Some v" "f v = Inr a"
  using assms by (cases x) auto

lemma if_Inl_Inr:
  assumes "(if c then Inl e else x) = Inr a"
  obtains "\<not> c" "x = Inr a"
  using assms by (cases c) auto

lemma parse_args_Inr:
  assumes "parse_args env cli = Inr a"
  shows "pooler a \<in> set pooler_choices
    \<and> un_supervise a = (case map_of (rev cli) ''un_supervise'' of None \<Rightarrow> False | Some s \<Rightarrow> s \<noteq> [])
    \<and> device a = (case map_of (rev cli) ''device'' of None \<Rightarrow> ''cpu'' | Some s \<Rightarrow> s)"
  using assms unfolding parse_args_def Let_def
  by (elim if_Inl_Inr option_case_Inr) auto

lemma first_fields_no_assertion: "first_fields rows \<noteq> Inl AssertionError"
  by (induction rows rule: first_fields.induct) (auto split: sum.splits)

lemma train_dataset_of_no_assertion: "train_dataset_of env a tok \<noteq> Inl AssertionError"
  using first_fields_no_assertion
  by (auto simp: train_dataset_of_def Let_def split: sum.splits if_splits)

lemma DataLoader_no_assertion: "DataLoader env ds bs \<noteq> Inl AssertionError"
  by (auto simp: DataLoader_def split: dataset.splits sum.splits)

lemma main_setup_no_assertion: "main_setup env a \<noteq> Inl AssertionError"
  using train_dataset_of_no_assertion [of env a] DataLoader_no_assertion [of env]
  by (auto simp: main_setup_def Let_def split: sum.splits)

lemma main_setup_fails:
  "main_setup env a = Inl e \<Longrightarrow> main env fw w a = (w, Some e)"
  by (simp add: main_def main_setup_device)

lemma main_assertion_fails:
  "main_setup env a = Inr loaders \<Longrightarrow> pooler a \<notin> set pooler_choices
     \<Longrightarrow> main env fw w a = (w, Some AssertionError)"
  by (cases loaders) (simp add: main_def main_setup_device)

lemma main_model_fails:
  "main_setup env a = Inr loaders \<Longrightarrow> pooler a \<in> set pooler_choices
     \<Longrightarrow> SimcseModel env (pretrain_model_path a) (pooler a) (dropout a)
           (if cuda_is_available env then ''cuda:0'' else ''cpu'') = Inl msg
     \<Longrightarrow> main env fw w a = (w, Some (Framework msg))"
  by (cases loaders) (simp add: main_def main_setup_device split del: if_split)

lemma main_optimizer_fails:
  "main_setup env a = Inr loaders \<Longrightarrow> pooler a \<in> set pooler_choices
     \<Longrightarrow> SimcseModel env (pretrain_model_path a) (pooler a) (dropout a)
           (if cuda_is_available env then ''cuda:0'' else ''cpu'') = Inr model
     \<Longrightarrow> AdamW env model (lr a) = Inl msg
     \<Longrightarrow> main env fw w a = (w, Some (Framework msg))"
  by (cases loaders) (simp add: main_def main_setup_device split del: if_split)

lemma main_trains:
  "main_setup env a = Inr (train_dataloader, test_dataloader)
     \<Longrightarrow> pooler a \<in> set pooler_choices
     \<Longrightarrow> SimcseModel env (pretrain_model_path a) (pooler a) (dropout a)
           (if cuda_is_available env then ''cuda:0'' else ''cpu'') = Inr model
     \<Longrightarrow> AdamW env model (lr a) = Inr model_opt
     \<Longrightarrow> train fw w model_opt (train_dataloader 0) test_dataloader
           (if cuda_is_available env then ''cuda:0'' else ''cpu'') (save_path a) = (st, r)
     \<Longrightarrow> main env fw w a = (outside st, r)"
  by (simp add: main_def main_setup_device split del: if_split)

text \<open>
  C5, as amended. \<^verbatim>\<open>main\<close> raises AssertionError exactly when the pooler is outside
  the four names and everything before the assertion (reading the data files, loading
  the tokenizer, building the datasets and the loaders) has succeeded. A namespace that
  the command line parser has produced never makes the assertion fire.
\<close>

theorem assertion_after_setup:
  "(snd (main env fw w a) = Some AssertionError
      \<longleftrightarrow> pooler a \<notin> set pooler_choices \<and> (\<exists>loaders. main_setup env a = Inr loaders))
   \<and> (parse_args env' cli = Inr a \<longrightarrow> snd (main env fw w a) \<noteq> Some AssertionError)"
proof -
  let ?d = "if cuda_is_available env then ''cuda:0'' else ''cpu''"
  have iff: "snd (main env fw w a) = Some AssertionError
      \<longleftrightarrow> pooler a \<notin> set pooler_choices \<and> (\<exists>loaders. main_setup env a = Inr loaders)"
  proof (cases "main_setup env a")
    case (Inl e)
    with main_setup_no_assertion [of env a] have "e \<noteq> AssertionError" by auto
    with Inl main_setup_fails [OF Inl, of fw w] show ?thesis by simp
  next
    case (Inr loaders)
    obtain tdl ddl where l: "loaders = (tdl, ddl)" by (cases loaders)
    show ?thesis
    proof (cases "pooler a \<in> set pooler_choices")
      case False
      with Inr main_assertion_fails [OF Inr False, of fw w] show ?thesis by simp
    next
      case True
      have "snd (main env fw w a) \<noteq> Some AssertionError"
      proof (cases "SimcseModel env (pretrain_model_path a) (pooler a) (dropout a) ?d")
        case (Inl msg)
        from main_model_fails [OF Inr True Inl, of fw w] show ?thesis by simp
      next
        case model: (Inr model)
        show ?thesis
        proof (cases "AdamW env model (lr a)")
          case (Inl msg)
          from main_optimizer_fails [OF Inr True model Inl, of fw w] show ?thesis by simp
        next
          case opt: (Inr model_opt)
          obtain st r where t: "train fw w model_opt (tdl 0) ddl ?d (save_path a) = (st, r)"
            by (cases "train fw w model_opt (tdl 0) ddl ?d (save_path a)")
          from train_no_assertion [of fw w model_opt "tdl 0" ddl ?d "save_path a"] t
          have "r \<noteq> Some AssertionError" by simp
          with main_trains [OF Inr [unfolded l] True model opt t] show ?thesis by simp
        qed
      qed
      with True show ?thesis by simp
    qed
  qed
  with parse_args_Inr [of env' cli a] show ?thesis by auto
qed

theorem assertion_after_setup_witness:
  "parse_args example_environment [] = Inr example_args
   \<and> snd (main example_environment example_framework example_world example_args)
       \<noteq> Some AssertionError
   \<and> snd (main example_environment example_framework example_world
       (example_args\<lparr>pooler := ''max''\<rparr>)) = Some AssertionError"
proof -
  have s: "\<exists>loaders. main_setup example_environment (example_args\<lparr>pooler := ''max''\<rparr>) = Inr loaders"
    by (simp add: main_setup_def train_dataset_of_def DataLoader_def example_environment_def
        example_args_def)
  have p: "pooler (example_args\<lparr>pooler := ''max''\<rparr>) \<notin> set pooler_choices"
    by (simp add: pooler_choices_def)
  have d: "parse_args example_environment [] = Inr example_args"
    by (rule parse_args_default)
  have "snd (main example_environment example_framework example_world
       (example_args\<lparr>pooler := ''max''\<rparr>)) = Some AssertionError"
    using assertion_after_setup [of example_environment example_framework example_world
      "example_args\<lparr>pooler := ''max''\<rparr>" example_environment "[]"] s p by blast
  moreover have "snd (main example_environment example_framework example_world example_args)
       \<noteq> Some AssertionError"
    using assertion_after_setup [of example_environment example_framework example_world
      example_args example_environment "[]"] d by blast
  ultimately show ?thesis using d by simp
qed

text \<open>
  C5 as stated fails: with a pooler outside the four names and the data files missing,
  \<^verbatim>\<open>main\<close> ends with the exception of the reader, not with AssertionError.
\<close>

theorem assertion_iff_counterexample:
  "\<not> (snd (main missing_files example_framework example_world (example_args\<lparr>pooler := ''max''\<rparr>))
        = Some AssertionError
      \<longleftrightarrow> pooler (example_args\<lparr>pooler := ''max''\<rparr>) \<notin> set pooler_choices)"
  by (simp add: main_def main_setup_def missing_files_def example_environment_def
      example_args_def pooler_choices_def)

section \<open>Exceptions leave the program\<close>










section \<open>The command line flags\<close>



text \<open>
  C10. In a parsed namespace the toggle is true exactly when the flag was given with a
  value other than the empty string (the string False included); it is false when the
  flag was omitted or given the empty string. The toggle decides the class of the
  training set: the unsupervised \<^verbatim>\<open>TrainDataset\<close> when true, the labelled
  \<^verbatim>\<open>TestDataset\<close> when false.
\<close>

theorem bool_flag_parses_nonempty_as_true:
  assumes "parse_args env cli = Inr a"
  shows "(un_supervise a \<longleftrightarrow> (\<exists>s. map_of (rev cli) ''un_supervise'' = Some s \<and> s \<noteq> ''''))
    \<and> (train_dataset_of env' a tok = Inr ds
         \<longrightarrow> (un_supervise a \<longleftrightarrow> (\<exists>sents n. ds = TrainDataset sents tok n)))"
proof -
  have "un_supervise a \<longleftrightarrow> (\<exists>s. map_of (rev cli) ''un_supervise'' = Some s \<and> s \<noteq> '''')"
    using parse_args_Inr [OF assms] by (auto split: option.splits)
  moreover have "un_supervise a \<longleftrightarrow> (\<exists>sents n. ds = TrainDataset sents tok n)"
    if "train_dataset_of env' a tok = Inr ds"
    using that by (auto simp: train_dataset_of_def Let_def split: if_splits sum.splits)
  ultimately show ?thesis by blast
qed

theorem bool_flag_parses_nonempty_as_true_witness:
  "parse_args example_environment [(''un_supervise'', ''False'')]
     = Inr (example_args\<lparr>un_supervise := True\<rparr>)
   \<and> train_dataset_of example_environment (example_args\<lparr>un_supervise := True\<rparr>) ()
       = Inr (TrainDataset [''a'', ''c''] () 16)
   \<and> un_supervise (example_args\<lparr>un_supervise := True\<rparr>)
   \<and> map_of (rev [(''un_supervise'', ''False'')]) ''un_supervise'' = Some ''False''"
proof -
  have p: "parse_args example_environment [(''un_supervise'', ''False'')]
     = Inr (example_args\<lparr>un_supervise := True\<rparr>)"
    by (simp add: parse_args_def converts_def example_args_def pooler_choices_def option_names_def)
  have t: "train_dataset_of example_environment (example_args\<lparr>un_supervise := True\<rparr>) ()
       = Inr (TrainDataset [''a'', ''c''] () 16)"
    by (simp add: train_dataset_of_def example_environment_def example_args_def)
  from bool_flag_parses_nonempty_as_true [OF p, of example_environment "()"
      "TrainDataset [''a'', ''c''] () 16"] p t
  show ?thesis by simp
qed

end
